theory Spec2Isabelle
  imports Complex_Main "HOL-Library.Monad_Syntax"
begin

section \<open>ECMAScript numbers\<close>

text \<open>
  The quoting engine (\<^verbatim>\<open>src/core/QuoterManager.ts\<close>) computes on ECMAScript \<^verbatim>\<open>number\<close>s, that is on
  IEEE 754 binary64 values. A number is modelled as \<open>NaN\<close>, one of the two infinities, or a finite
  value given by the rational it denotes. Every arithmetic operation computes the exact rational
  result and rounds it to the nearest binary64 value, ties to even (\<open>fround\<close>), as IEEE 754
  prescribes for \<^verbatim>\<open>+ - * /\<close>.

  The sign of zero is not tracked. It can only be observed by dividing by zero, by
  \<^verbatim>\<open>Object.is\<close> and by \<^verbatim>\<open>Math.atan2\<close>; the modelled code divides by the literal \<^verbatim>\<open>10000\<close> only.
\<close>

datatype jsnum = NaN | NInf | Fin rat | PInf

definition round_half_even :: "rat \<Rightarrow> int" where
  "round_half_even q =
     (let f = \<lfloor>q\<rfloor>; d = q - of_int f
      in if d < 1/2 then f else if 1/2 < d then f + 1 else if even f then f else f + 1)"

text \<open>\<open>bitlen n\<close> is the number of binary digits of a positive integer.\<close>

function bitlen :: "int \<Rightarrow> int" where
  "bitlen n = (if n \<le> 0 then 0 else 1 + bitlen (n div 2))"
  by pat_completeness auto
termination
  by (relation "measure nat") auto

declare bitlen.simps [simp del]

text \<open>Powers of two and ten with integer exponents, computed on integers.\<close>

definition pow2 :: "int \<Rightarrow> rat" where
  "pow2 e = (if 0 \<le> e then of_int (2 ^ nat e) else 1 / of_int (2 ^ nat (- e)))"

definition pow10 :: "int \<Rightarrow> rat" where
  "pow10 e = (if 0 \<le> e then of_int (10 ^ nat e) else 1 / of_int (10 ^ nat (- e)))"

text \<open>\<open>ilog2 x\<close> is the binary exponent \<open>e\<close> of a positive rational: \<open>2^e \<le> x < 2^(e+1)\<close>.\<close>

definition ilog2 :: "rat \<Rightarrow> int" where
  "ilog2 x =
     (let (p, q) = quotient_of x; d = bitlen p - bitlen q
      in if pow2 d \<le> x then d else d - 1)"

text \<open>
  The exponent of the unit in the last place of \<open>x\<close>: 53 significant bits in the normal range,
  the fixed spacing \<open>2^-1074\<close> in the subnormal range (binary exponents below \<open>-1022\<close>).
\<close>

definition fexp :: "rat \<Rightarrow> int" where
  "fexp x = max (ilog2 \<bar>x\<bar>) (- 1022) - 52"

definition rnd :: "rat \<Rightarrow> rat" where
  "rnd x = (if x = 0 then 0
            else of_int (round_half_even (x / pow2 (fexp x))) * pow2 (fexp x))"

text \<open>A result that rounds to \<open>2^1024\<close> or beyond in magnitude overflows to an infinity.\<close>

definition fround :: "rat \<Rightarrow> jsnum" where
  "fround x =
     (let r = rnd x
      in if pow2 1024 \<le> r then PInf else if r \<le> - pow2 1024 then NInf else Fin r)"

subsection \<open>Arithmetic and comparison\<close>

fun sign_of :: "jsnum \<Rightarrow> rat" where
  "sign_of NaN = 0"
| "sign_of NInf = - 1"
| "sign_of PInf = 1"
| "sign_of (Fin a) = sgn a"

definition inf_of_sign :: "rat \<Rightarrow> jsnum" where
  "inf_of_sign s = (if s = 0 then NaN else if 0 < s then PInf else NInf)"

fun js_neg :: "jsnum \<Rightarrow> jsnum" where
  "js_neg NaN = NaN"
| "js_neg NInf = PInf"
| "js_neg PInf = NInf"
| "js_neg (Fin a) = Fin (- a)"

fun js_add :: "jsnum \<Rightarrow> jsnum \<Rightarrow> jsnum" where
  "js_add (Fin a) (Fin b) = fround (a + b)"
| "js_add NaN _ = NaN"
| "js_add _ NaN = NaN"
| "js_add PInf NInf = NaN"
| "js_add NInf PInf = NaN"
| "js_add PInf _ = PInf"
| "js_add _ PInf = PInf"
| "js_add NInf _ = NInf"
| "js_add _ NInf = NInf"

definition js_sub :: "jsnum \<Rightarrow> jsnum \<Rightarrow> jsnum" where
  "js_sub a b = js_add a (js_neg b)"

fun js_mul :: "jsnum \<Rightarrow> jsnum \<Rightarrow> jsnum" where
  "js_mul (Fin a) (Fin b) = fround (a * b)"
| "js_mul NaN _ = NaN"
| "js_mul _ NaN = NaN"
| "js_mul a b = inf_of_sign (sign_of a * sign_of b)"

text \<open>Division; a zero divisor is taken to be \<open>+0\<close> (see above).\<close>

fun js_div :: "jsnum \<Rightarrow> jsnum \<Rightarrow> jsnum" where
  "js_div (Fin a) (Fin b) = (if b = 0 then inf_of_sign (sgn a) else fround (a / b))"
| "js_div NaN _ = NaN"
| "js_div _ NaN = NaN"
| "js_div (Fin a) _ = Fin 0"
| "js_div a (Fin b) = inf_of_sign (sign_of a * (if b < 0 then - 1 else 1))"
| "js_div PInf _ = NaN"
| "js_div NInf _ = NaN"

text \<open>The relational operators; every comparison with \<open>NaN\<close> is false.\<close>

fun js_lt :: "jsnum \<Rightarrow> jsnum \<Rightarrow> bool" where
  "js_lt NaN _ = False"
| "js_lt _ NaN = False"
| "js_lt (Fin a) (Fin b) = (a < b)"
| "js_lt NInf NInf = False"
| "js_lt NInf _ = True"
| "js_lt _ NInf = False"
| "js_lt PInf _ = False"
| "js_lt _ PInf = True"

definition js_gt :: "jsnum \<Rightarrow> jsnum \<Rightarrow> bool" where
  "js_gt a b = js_lt b a"

definition js_ge :: "jsnum \<Rightarrow> jsnum \<Rightarrow> bool" where
  "js_ge a b = (a \<noteq> NaN \<and> b \<noteq> NaN \<and> \<not> js_lt a b)"

subsection \<open>The \<^verbatim>\<open>Math\<close> functions used by the engine\<close>

fun Math_floor :: "jsnum \<Rightarrow> jsnum" where
  "Math_floor (Fin a) = Fin (of_int \<lfloor>a\<rfloor>)"
| "Math_floor x = x"

text \<open>\<^verbatim>\<open>Math.round\<close> rounds to the nearest integer, halves towards \<open>+\<infinity>\<close>.\<close>

fun Math_round :: "jsnum \<Rightarrow> jsnum" where
  "Math_round (Fin a) = Fin (of_int \<lfloor>a + 1/2\<rfloor>)"
| "Math_round x = x"

definition Math_max :: "jsnum \<Rightarrow> jsnum \<Rightarrow> jsnum" where
  "Math_max a b = (if a = NaN \<or> b = NaN then NaN else if js_lt a b then b else a)"

definition Math_min :: "jsnum \<Rightarrow> jsnum \<Rightarrow> jsnum" where
  "Math_min a b = (if a = NaN \<or> b = NaN then NaN else if js_lt b a then b else a)"

text \<open>
  \<^verbatim>\<open>Math.pow\<close> for integer exponents (bin indices are integers). ECMAScript fixes the special
  cases below and leaves the remaining results implementation-approximated; the model takes the
  correctly rounded power.
\<close>

definition Math_pow :: "jsnum \<Rightarrow> int \<Rightarrow> jsnum" where
  "Math_pow b n =
     (if n = 0 then Fin 1
      else case b of
        NaN \<Rightarrow> NaN
      | PInf \<Rightarrow> (if 0 < n then PInf else Fin 0)
      | NInf \<Rightarrow> (if n < 0 then Fin 0 else if odd n then NInf else PInf)
      | Fin a \<Rightarrow> (if a = 0 then (if 0 < n then Fin 0 else PInf) else fround (a powi n)))"

section \<open>Strings and the number conversions\<close>

text \<open>
  Strings are lists of characters; the tokens, amounts and numerals handled by the engine are
  ASCII, and only the ASCII white space characters are recognised as such.
\<close>

definition is_ws :: "char \<Rightarrow> bool" where
  "is_ws c = (c \<in> set [CHR 0x09, CHR 0x0A, CHR 0x0B, CHR 0x0C, CHR 0x0D, CHR 0x20])"

definition is_digit :: "char \<Rightarrow> bool" where
  "is_digit c = (48 \<le> (of_char c :: nat) \<and> (of_char c :: nat) \<le> 57)"

definition is_hex_digit :: "char \<Rightarrow> bool" where
  "is_hex_digit c =
     (is_digit c \<or> (65 \<le> (of_char c :: nat) \<and> (of_char c :: nat) \<le> 70)
        \<or> (97 \<le> (of_char c :: nat) \<and> (of_char c :: nat) \<le> 102))"

definition digit_val :: "char \<Rightarrow> nat" where
  "digit_val c =
     (let n = of_char c
      in if n \<le> 57 then n - 48 else if n \<le> 70 then n - 55 else n - 87)"

definition digits_value :: "nat \<Rightarrow> string \<Rightarrow> nat" where
  "digits_value radix ds = foldl (\<lambda>acc c. acc * radix + digit_val c) 0 ds"

definition starts_with :: "string \<Rightarrow> string \<Rightarrow> bool" where
  "starts_with p s = (take (length p) s = p)"

definition digit_char :: "nat \<Rightarrow> char" where
  "digit_char d = ''0123456789'' ! d"

fun dec_nat :: "nat \<Rightarrow> string" where
  "dec_nat n = (if n < 10 then [digit_char n] else dec_nat (n div 10) @ [digit_char (n mod 10)])"

declare dec_nat.simps [simp del]

definition dec_int :: "int \<Rightarrow> string" where
  "dec_int i = (if i < 0 then CHR ''-'' # dec_nat (nat (- i)) else dec_nat (nat i))"

subsection \<open>\<^verbatim>\<open>Number.prototype.toString\<close>\<close>

text \<open>\<open>declen n\<close> is the number of decimal digits of a positive integer.\<close>

function declen :: "int \<Rightarrow> int" where
  "declen n = (if n \<le> 0 then 0 else 1 + declen (n div 10))"
  by pat_completeness auto
termination
  by (relation "measure nat") auto

declare declen.simps [simp del]

text \<open>The decimal exponent \<open>n\<close> of a positive rational: \<open>10^(n-1) \<le> x < 10^n\<close>.\<close>

definition decimal_exponent :: "rat \<Rightarrow> int" where
  "decimal_exponent x =
     (let (p, q) = quotient_of x; d = declen p - declen q
      in if x < pow10 d then d else d + 1)"

text \<open>
  ECMAScript prints a finite number \<open>x\<close> with the least number \<open>k\<close> of significant digits \<open>s\<close>
  such that \<open>s \<times> 10^(n-k)\<close> still rounds to \<open>x\<close>, taking the \<open>s\<close> closest to \<open>x\<close>.
  \<open>shortest_digits x n k fuel\<close> searches \<open>k, k+1, \<dots>\<close>; for each \<open>k\<close> the candidates are
  the two \<open>k\<close>-digit neighbours of \<open>x\<close>. Seventeen digits always identify a binary64 value, so the
  search started with fuel 17 ends before the fuel does. The result is \<open>(s, n, k)\<close>.
\<close>

fun shortest_digits :: "rat \<Rightarrow> int \<Rightarrow> nat \<Rightarrow> nat \<Rightarrow> int \<times> int \<times> nat" where
  "shortest_digits x n k 0 = (\<lfloor>x / pow10 (n - int k)\<rfloor>, n, k)"
| "shortest_digits x n k (Suc fuel) =
     (let u = pow10 (n - int k);
          lo = \<lfloor>x / u\<rfloor>;
          ok = (\<lambda>s. fround (of_int s * u) = Fin x);
          pick = (\<lambda>s. if s = 10 ^ k then (10 ^ (k - 1), n + 1, k) else (s, n, k))
      in if ok lo \<and> ok (lo + 1)
         then (if x - of_int lo * u < of_int (lo + 1) * u - x then pick lo
               else if of_int (lo + 1) * u - x < x - of_int lo * u then pick (lo + 1)
               else if even lo then pick lo else pick (lo + 1))
         else if ok lo then pick lo
         else if ok (lo + 1) then pick (lo + 1)
         else shortest_digits x n (Suc k) fuel)"

text \<open>The layout of the digits: plain, with a decimal point, or in exponent notation.\<close>

definition format_digits :: "string \<Rightarrow> int \<Rightarrow> nat \<Rightarrow> string" where
  "format_digits ds n k =
     (if int k \<le> n \<and> n \<le> 21 then ds @ replicate (nat (n - int k)) CHR ''0''
      else if 0 < n \<and> n \<le> 21 then take (nat n) ds @ ''.'' @ drop (nat n) ds
      else if - 6 < n \<and> n \<le> 0 then ''0.'' @ replicate (nat (- n)) CHR ''0'' @ ds
      else (if k = 1 then ds else take 1 ds @ ''.'' @ drop 1 ds)
             @ ''e'' @ (if n - 1 < 0 then ''-'' else ''+'') @ dec_nat (nat \<bar>n - 1\<bar>))"

text \<open>
  Integers of magnitude up to \<open>2^53\<close> print as their decimal numeral; every other finite value
  goes through the shortest-digits search.
\<close>

definition pos_toString :: "rat \<Rightarrow> string" where
  "pos_toString x =
     (if x = of_int \<lfloor>x\<rfloor> \<and> x \<le> 9007199254740992 then dec_nat (nat \<lfloor>x\<rfloor>)
      else case shortest_digits x (decimal_exponent x) 1 17 of
             (s, n, k) \<Rightarrow> format_digits (dec_nat (nat s)) n k)"

fun num_toString :: "jsnum \<Rightarrow> string" where
  "num_toString NaN = ''NaN''"
| "num_toString PInf = ''Infinity''"
| "num_toString NInf = ''-Infinity''"
| "num_toString (Fin x) =
     (if x = 0 then ''0'' else if x < 0 then CHR ''-'' # pos_toString (- x) else pos_toString x)"

subsection \<open>\<^verbatim>\<open>parseInt\<close> and \<^verbatim>\<open>parseFloat\<close> on strings\<close>

text \<open>
  \<^verbatim>\<open>parseInt(s)\<close> without a radix: skip leading white space, read a sign, switch to radix 16
  after \<^verbatim>\<open>0x\<close>, read the longest run of digits; no digit gives \<open>NaN\<close>. The integer read is
  converted to the nearest number.
\<close>

definition parseInt_str :: "string \<Rightarrow> jsnum" where
  "parseInt_str s =
     (let s1 = dropWhile is_ws s;
          neg = starts_with ''-'' s1;
          s2 = (if starts_with ''-'' s1 \<or> starts_with ''+'' s1 then tl s1 else s1);
          hex = (starts_with ''0x'' s2 \<or> starts_with ''0X'' s2);
          s3 = (if hex then drop 2 s2 else s2);
          z = takeWhile (if hex then is_hex_digit else is_digit) s3;
          v = int (digits_value (if hex then 16 else 10) z)
      in if z = [] then NaN else fround (of_int (if neg then - v else v)))"

definition exponent_part :: "string \<Rightarrow> int" where
  "exponent_part r =
     (if starts_with ''e'' r \<or> starts_with ''E'' r
      then let t = tl r;
               t2 = (if starts_with ''-'' t \<or> starts_with ''+'' t then tl t else t);
               ds = takeWhile is_digit t2
           in if ds = [] then 0
              else if starts_with ''-'' t then - int (digits_value 10 ds)
              else int (digits_value 10 ds)
      else 0)"

text \<open>
  \<^verbatim>\<open>parseFloat(s)\<close>: skip leading white space and read the longest prefix that is a decimal
  literal (sign, \<^verbatim>\<open>Infinity\<close> or digits with an optional fraction and exponent); no such prefix
  gives \<open>NaN\<close>.
\<close>

definition parseFloat_str :: "string \<Rightarrow> jsnum" where
  "parseFloat_str s =
     (let s1 = dropWhile is_ws s;
          neg = starts_with ''-'' s1;
          s2 = (if starts_with ''-'' s1 \<or> starts_with ''+'' s1 then tl s1 else s1);
          ip = takeWhile is_digit s2;
          r1 = dropWhile is_digit s2;
          fp = (if starts_with ''.'' r1 then takeWhile is_digit (tl r1) else []);
          r2 = (if starts_with ''.'' r1 then dropWhile is_digit (tl r1) else r1);
          v = of_nat (digits_value 10 (ip @ fp)) * pow10 (exponent_part r2 - int (length fp))
      in if starts_with ''Infinity'' s2 then (if neg then NInf else PInf)
         else if ip = [] \<and> fp = [] then NaN
         else fround (if neg then - v else v))"

section \<open>Values received from the ledger gateway\<close>

text \<open>
  \<^verbatim>\<open>parseContractQuoteResult\<close> takes the gateway response as \<^verbatim>\<open>any\<close> and copies parts of it
  into the quote unchecked, so the model needs the untyped values of the language: the JSON
  values and \<^verbatim>\<open>undefined\<close>. An object is the list of its own properties.
\<close>

datatype jsval =
    JUndefined
  | JNull
  | JBool bool
  | JNum jsnum
  | JStr string
  | JArr "jsval list"
  | JObj "(string \<times> jsval) list"

fun truthy :: "jsval \<Rightarrow> bool" where
  "truthy JUndefined = False"
| "truthy JNull = False"
| "truthy (JBool b) = b"
| "truthy (JNum n) = (n \<noteq> NaN \<and> n \<noteq> Fin 0)"
| "truthy (JStr s) = (s \<noteq> [])"
| "truthy (JArr xs) = True"
| "truthy (JObj ps) = True"

text \<open>\<^verbatim>\<open>a || b\<close> on values.\<close>

definition js_or :: "jsval \<Rightarrow> jsval \<Rightarrow> jsval" where
  "js_or a b = (if truthy a then a else b)"

text \<open>
  Conversion to a string, as performed by \<^verbatim>\<open>parseInt\<close>, \<^verbatim>\<open>parseFloat\<close> and by the
  \<^verbatim>\<open>toString\<close> method. \<open>None\<close> stands for a raised \<^verbatim>\<open>TypeError\<close>: an object whose own
  property \<^verbatim>\<open>toString\<close> shadows the inherited method cannot be converted, because no JSON value
  is callable. An array joins the strings of its elements with commas, \<^verbatim>\<open>null\<close> and
  \<^verbatim>\<open>undefined\<close> elements giving the empty string.
\<close>

fun join_comma :: "string option list \<Rightarrow> string option" where
  "join_comma [] = Some []"
| "join_comma [x] = x"
| "join_comma (x # y # ys) =
     (case x of None \<Rightarrow> None
      | Some a \<Rightarrow> (case join_comma (y # ys) of None \<Rightarrow> None | Some b \<Rightarrow> Some (a @ '','' @ b)))"

fun ToString :: "jsval \<Rightarrow> string option" where
  "ToString JUndefined = Some ''undefined''"
| "ToString JNull = Some ''null''"
| "ToString (JBool b) = Some (if b then ''true'' else ''false'')"
| "ToString (JNum n) = Some (num_toString n)"
| "ToString (JStr s) = Some s"
| "ToString (JArr xs) =
     join_comma (map (\<lambda>x. if x = JUndefined \<or> x = JNull then Some [] else ToString x) xs)"
| "ToString (JObj ps) =
     (if ''toString'' \<in> fst ` set ps then None else Some ''[object Object]'')"

definition js_parseInt :: "jsval \<Rightarrow> jsnum option" where
  "js_parseInt v = map_option parseInt_str (ToString v)"

definition js_parseFloat :: "jsval \<Rightarrow> jsnum option" where
  "js_parseFloat v = map_option parseFloat_str (ToString v)"

text \<open>
  Property access \<^verbatim>\<open>v[k]\<close> for the keys the parser uses (\<^verbatim>\<open>results\<close>, \<^verbatim>\<open>returnValues\<close>
  and the index \<^verbatim>\<open>0\<close> to \<^verbatim>\<open>3\<close>). On \<^verbatim>\<open>null\<close> and \<^verbatim>\<open>undefined\<close> it raises a
  \<^verbatim>\<open>TypeError\<close> (\<open>None\<close>); on any other value a missing property reads as \<^verbatim>\<open>undefined\<close>.
\<close>

fun get_prop :: "jsval \<Rightarrow> string \<Rightarrow> jsval option" where
  "get_prop JUndefined k = None"
| "get_prop JNull k = None"
| "get_prop (JObj ps) k = Some (case map_of ps k of None \<Rightarrow> JUndefined | Some v \<Rightarrow> v)"
| "get_prop v k = Some JUndefined"

fun get_index :: "jsval \<Rightarrow> nat \<Rightarrow> jsval option" where
  "get_index JUndefined i = None"
| "get_index JNull i = None"
| "get_index (JArr xs) i = Some (if i < length xs then xs ! i else JUndefined)"
| "get_index (JStr s) i = Some (if i < length s then JStr [s ! i] else JUndefined)"
| "get_index (JObj ps) i =
     Some (case map_of ps (dec_nat i) of None \<Rightarrow> JUndefined | Some v \<Rightarrow> v)"
| "get_index v i = Some JUndefined"

text \<open>Optional chaining \<^verbatim>\<open>v?.[k]\<close>: \<^verbatim>\<open>undefined\<close> on \<^verbatim>\<open>null\<close> and \<^verbatim>\<open>undefined\<close>, never raising.\<close>

definition opt_prop :: "jsval \<Rightarrow> string \<Rightarrow> jsval" where
  "opt_prop v k = (case get_prop v k of None \<Rightarrow> JUndefined | Some w \<Rightarrow> w)"

definition opt_index :: "jsval \<Rightarrow> nat \<Rightarrow> jsval" where
  "opt_index v i = (case get_index v i of None \<Rightarrow> JUndefined | Some w \<Rightarrow> w)"

section \<open>The quote data model\<close>

text \<open>
  The interfaces of \<^verbatim>\<open>types/pools/swap\<close>. The amount fields are declared \<^verbatim>\<open>string\<close>, but the
  parser fills them from the untyped gateway response, so at run time they hold whatever value
  the gateway returned; they are \<open>jsval\<close>s here. \<^verbatim>\<open>priceImpact\<close> is always produced by
  \<^verbatim>\<open>toString()\<close> or a literal and is a string.
\<close>

datatype route_type = Direct | MultiHop

record RouteHop =
  hop_poolId :: string
  hop_tokenIn :: string
  hop_tokenOut :: string
  hop_binStep :: jsnum
  expectedAmountIn :: jsval
  expectedAmountOut :: jsval
  expectedFee :: jsval
  hop_priceImpact :: string

record SwapRoute =
  hops :: "RouteHop list"
  totalFee :: jsval
  estimatedGas :: jsval
  route_priceImpact :: string
  routeType :: route_type

record QuoteResult =
  amountOut :: jsval
  amountIn :: jsval
  priceImpact :: string
  feeAmount :: jsval
  gasEstimate :: jsval
  poolId :: string
  route :: SwapRoute
  isValid :: bool
  slippageTolerance :: jsnum

record QuoteParams =
  tokenIn :: string
  tokenOut :: string
  params_amountIn :: string

text \<open>\<^verbatim>\<open>QuoteOptions\<close>: every field is optional; \<^verbatim>\<open>refreshInterval\<close> is not read by the engine.\<close>

record QuoteOptions =
  opt_maxHops :: "jsnum option"
  opt_slippageTolerance :: "jsnum option"
  opt_includeGasEstimate :: "bool option"

text \<open>
  \<^verbatim>\<open>MultiRouteQuote\<close>. The field \<^verbatim>\<open>alternativeRoutes\<close> is left out. It holds the candidates
  other than the best one, told apart by object identity, and no modelled function reads it.
  Computing it raises nothing: there are at most two candidates (the direct route and the route
  through the one intermediate token), so at most one is left to \<^verbatim>\<open>sort\<close> and the comparator
  is never called.
\<close>

record MultiRouteQuote =
  directRoute :: "QuoteResult option"
  singleHopRoutes :: "QuoteResult list"
  multiHopRoutes :: "QuoteResult list"
  bestRoute :: QuoteResult

text \<open>
  Raised errors. The gateway boundary raises \<open>TransportError\<close>; \<open>Error msg cause\<close> is
  \<^verbatim>\<open>new Error(msg + cause)\<close>, the wrapper each \<^verbatim>\<open>catch\<close> block of the manager throws.
\<close>

datatype js_error = TransportError string | TypeError | Error string js_error

record SlippageConfig =
  tolerance :: jsnum
  autoSlippage :: bool
  maxSlippage :: jsnum

section \<open>QuoterManager: parsing, composing and ranking quotes\<close>

definition createEmptyQuote :: QuoteResult where
  "createEmptyQuote =
     \<lparr> amountOut = JStr ''0'', amountIn = JStr ''0'', priceImpact = ''0'',
       feeAmount = JStr ''0'', gasEstimate = JStr ''0'', poolId = '''',
       route = \<lparr> hops = [], totalFee = JStr ''0'', estimatedGas = JStr ''0'',
                 route_priceImpact = ''0'', routeType = Direct \<rparr>,
       isValid = False, slippageTolerance = Fin 50 \<rparr>"

text \<open>\<^verbatim>\<open>result.results?.[0]?.returnValues\<close>; \<open>None\<close> when \<^verbatim>\<open>result\<close> itself is nullish.\<close>

definition return_values :: "jsval \<Rightarrow> jsval option" where
  "return_values result =
     (case get_prop result ''results'' of
        None \<Rightarrow> None
      | Some r \<Rightarrow> Some (opt_prop (opt_index r 0) ''returnValues''))"

text \<open>\<^verbatim>\<open>returnValues[i]?.[0] || dflt\<close>.\<close>

definition position :: "jsval \<Rightarrow> nat \<Rightarrow> string \<Rightarrow> jsval option" where
  "position rv i dflt =
     (case get_index rv i of
        None \<Rightarrow> None
      | Some e \<Rightarrow> Some (js_or (opt_index e 0) (JStr dflt)))"

text \<open>The \<^verbatim>\<open>try\<close> block of \<^verbatim>\<open>parseContractQuoteResult\<close>; \<open>None\<close> when it raises.\<close>

definition parse_body :: "jsval \<Rightarrow> string \<Rightarrow> string \<Rightarrow> jsval \<Rightarrow> QuoteResult option" where
  "parse_body result tIn tOut aIn =
     (case return_values result of
        None \<Rightarrow> None
      | Some rv \<Rightarrow>
          if truthy rv then
            do {
              aOut \<leftarrow> position rv 0 ''0'';
              pImpact \<leftarrow> position rv 1 ''0'';
              fee \<leftarrow> position rv 2 ''0'';
              gas \<leftarrow> position rv 3 ''150000'';
              pImpactStr \<leftarrow> ToString pImpact;
              n \<leftarrow> js_parseInt aOut;
              Some \<lparr> amountOut = aOut, amountIn = aIn, priceImpact = pImpactStr,
                     feeAmount = fee, gasEstimate = gas, poolId = '''',
                     route = \<lparr> hops = [\<lparr> hop_poolId = '''', hop_tokenIn = tIn,
                                           hop_tokenOut = tOut, hop_binStep = Fin 25,
                                           expectedAmountIn = aIn, expectedAmountOut = aOut,
                                           expectedFee = fee, hop_priceImpact = pImpactStr \<rparr>],
                               totalFee = fee, estimatedGas = gas,
                               route_priceImpact = pImpactStr, routeType = Direct \<rparr>,
                     isValid = js_gt n (Fin 0), slippageTolerance = Fin 50 \<rparr>
            }
          else Some createEmptyQuote)"

text \<open>The \<^verbatim>\<open>catch\<close> block answers every raised error with the empty quote.\<close>

definition parseContractQuoteResult ::
    "jsval \<Rightarrow> string \<Rightarrow> string \<Rightarrow> jsval \<Rightarrow> js_error + QuoteResult" where
  "parseContractQuoteResult result tIn tOut aIn =
     (case parse_body result tIn tOut aIn of
        None \<Rightarrow> Inr createEmptyQuote
      | Some q \<Rightarrow> Inr q)"

text \<open>\<^verbatim>\<open>combineHops\<close>; \<open>None\<close> when a \<^verbatim>\<open>parseInt\<close> argument cannot be converted to a string.\<close>

definition combineHops ::
    "QuoteParams \<Rightarrow> QuoteResult \<Rightarrow> QuoteResult \<Rightarrow> string \<Rightarrow> QuoteResult option" where
  "combineHops originalParams firstHop secondHop intermediate =
     do {
       f1 \<leftarrow> js_parseInt (feeAmount firstHop);
       f2 \<leftarrow> js_parseInt (feeAmount secondHop);
       let totalFee = JStr (num_toString (js_add f1 f2));
       let totalPriceImpact =
             num_toString (js_add (parseFloat_str (priceImpact firstHop))
                                  (parseFloat_str (priceImpact secondHop)));
       g1 \<leftarrow> js_parseInt (gasEstimate firstHop);
       g2 \<leftarrow> js_parseInt (gasEstimate secondHop);
       let totalGas = JStr (num_toString (js_add g1 g2));
       Some \<lparr> amountOut = amountOut secondHop,
              amountIn = JStr (params_amountIn originalParams),
              priceImpact = totalPriceImpact,
              feeAmount = totalFee,
              gasEstimate = totalGas,
              poolId = '''',
              route = \<lparr> hops = hops (route firstHop) @ hops (route secondHop),
                        totalFee = totalFee, estimatedGas = totalGas,
                        route_priceImpact = totalPriceImpact, routeType = MultiHop \<rparr>,
              isValid = True,
              slippageTolerance =
                Math_max (slippageTolerance firstHop) (slippageTolerance secondHop) \<rparr>
     }"

text \<open>\<^verbatim>\<open>calculateRouteScore\<close>. The literal \<^verbatim>\<open>0.001\<close> is the number nearest to \<open>1/1000\<close>.\<close>

definition calculateRouteScore :: "QuoteResult \<Rightarrow> jsnum option" where
  "calculateRouteScore quote =
     do {
       aOut \<leftarrow> js_parseInt (amountOut quote);
       fees \<leftarrow> js_parseInt (feeAmount quote);
       gas \<leftarrow> js_parseInt (gasEstimate quote);
       let pImpact = parseFloat_str (priceImpact quote);
       let outputScore = aOut;
       let costScore = js_add fees (js_mul gas (fround (1 / 1000)));
       let impactPenalty = js_mul pImpact (Fin 1000);
       Some (js_sub (js_sub outputScore costScore) impactPenalty)
     }"

text \<open>
  The callback of \<^verbatim>\<open>allRoutes.reduce\<close>, folded from the left over the remaining routes with
  the first route as the initial \<^verbatim>\<open>best\<close>; a single route is returned without being scored.
\<close>

fun reduce_best :: "QuoteResult \<Rightarrow> QuoteResult list \<Rightarrow> QuoteResult option" where
  "reduce_best best [] = Some best"
| "reduce_best best (current # rest) =
     (case calculateRouteScore best of
        None \<Rightarrow> None
      | Some bestScore \<Rightarrow>
          (case calculateRouteScore current of
             None \<Rightarrow> None
           | Some currentScore \<Rightarrow>
               reduce_best (if js_gt currentScore bestScore then current else best) rest))"

definition candidateRoutes :: "MultiRouteQuote \<Rightarrow> QuoteResult list" where
  "candidateRoutes multiRoute =
     filter isValid
       ((case directRoute multiRoute of None \<Rightarrow> [] | Some d \<Rightarrow> [d])
          @ singleHopRoutes multiRoute @ multiHopRoutes multiRoute)"

definition selectBestRoute :: "MultiRouteQuote \<Rightarrow> QuoteResult option" where
  "selectBestRoute multiRoute =
     (case candidateRoutes multiRoute of
        [] \<Rightarrow> Some createEmptyQuote
      | first # rest \<Rightarrow> reduce_best first rest)"

text \<open>
  \<^verbatim>\<open>routes.sort((a, b) => parseInt(b.amountOut) - parseInt(a.amountOut))\<close>: a stable sort,
  descending in the parsed output amount. With fewer than two routes the comparator is never
  called. (With a comparator that yields \<open>NaN\<close> the order is implementation-defined; the
  model then keeps what a stable insertion sort produces.)
\<close>

fun insert_route ::
    "QuoteResult \<times> jsnum \<Rightarrow> (QuoteResult \<times> jsnum) list \<Rightarrow> (QuoteResult \<times> jsnum) list" where
  "insert_route x [] = [x]"
| "insert_route x (y # ys) =
     (if js_gt (js_sub (snd y) (snd x)) (Fin 0) then y # insert_route x ys else x # y # ys)"

definition sort_routes :: "QuoteResult list \<Rightarrow> QuoteResult list option" where
  "sort_routes rs =
     (if length rs < 2 then Some rs
      else case those (map (\<lambda>q. js_parseInt (amountOut q)) rs) of
             None \<Rightarrow> None
           | Some ks \<Rightarrow> Some (map fst (foldr insert_route (zip rs ks) [])))"

text \<open>\<^verbatim>\<open>calculateOptimalSlippage\<close>, \<^verbatim>\<open>estimateGasForRoute\<close> and \<^verbatim>\<open>enhanceQuote\<close>.\<close>

definition calculateOptimalSlippage :: "QuoteResult \<Rightarrow> SlippageConfig" where
  "calculateOptimalSlippage quote =
     (let pImpact = parseFloat_str (priceImpact quote);
          baseSlippage = Fin 50;
          tol = (if js_gt pImpact (Fin 1)
                 then Math_min (js_add baseSlippage (js_mul pImpact (Fin 10))) (Fin 500)
                 else baseSlippage)
      in \<lparr> tolerance = Math_round tol, autoSlippage = True, maxSlippage = Fin 1000 \<rparr>)"

definition estimateGasForRoute :: "SwapRoute \<Rightarrow> string" where
  "estimateGasForRoute r =
     num_toString (js_add (Fin 100000) (js_mul (Fin (of_nat (length (hops r)))) (Fin 150000)))"

definition enhanceQuote :: "QuoteResult \<Rightarrow> jsnum \<Rightarrow> bool \<Rightarrow> QuoteResult" where
  "enhanceQuote quote slippage includeGas =
     (let enhanced =
            quote \<lparr> slippageTolerance :=
                      Math_max slippage (tolerance (calculateOptimalSlippage quote)) \<rparr>
      in if includeGas \<and> \<not> truthy (gasEstimate enhanced)
         then enhanced \<lparr> gasEstimate := JStr (estimateGasForRoute (route enhanced)) \<rparr>
         else enhanced)"

text \<open>
  \<^verbatim>\<open>calculateMinimumOutput\<close>: \<open>minimumOutputValue\<close> is the number passed to
  \<^verbatim>\<open>toString()\<close>.
\<close>

definition minimumOutputValue :: "QuoteResult \<Rightarrow> jsnum \<Rightarrow> jsnum option" where
  "minimumOutputValue quote slippageBps =
     do {
       aOut \<leftarrow> js_parseInt (amountOut quote);
       let slippageMultiplier = js_div (js_sub (Fin 10000) slippageBps) (Fin 10000);
       Some (Math_floor (js_mul aOut slippageMultiplier))
     }"

definition calculateMinimumOutput :: "QuoteResult \<Rightarrow> jsnum \<Rightarrow> string option" where
  "calculateMinimumOutput quote slippageBps =
     map_option num_toString (minimumOutputValue quote slippageBps)"

section \<open>The bin price helpers\<close>

text \<open>
  \<^verbatim>\<open>calculateBinPrice\<close> (the SDK's index module). The function contains no \<^verbatim>\<open>throw\<close>; its
  outcome is written as a sum so that this can be stated.
\<close>

definition calculateBinPrice :: "int \<Rightarrow> jsnum \<Rightarrow> js_error + string" where
  "calculateBinPrice binId binStep =
     (let base = js_add (Fin 1) (js_div binStep (Fin 10000));
          price = Math_pow base binId
      in Inr (num_toString (js_mul price (Math_pow (Fin 2) 64))))"

section \<open>The ledger gateway and the asynchronous operations\<close>

text \<open>
  The gateway is everything inside the \<^verbatim>\<open>try\<close> block of \<^verbatim>\<open>getContractQuote\<close> before the
  parser runs: building the \<^verbatim>\<open>quoter::get_quote\<close> call for a token pair and an input amount
  and awaiting \<^verbatim>\<open>devInspectTransactionBlock\<close>. It is a parameter of the model: a function of the
  request and of the state \<open>'g\<close> of the outside world, which answers with the raw response or
  with a raised error and moves the world on. An asynchronous operation of the manager takes
  the world and returns its outcome together with the new world.
\<close>

type_synonym 'g gateway = "string \<Rightarrow> string \<Rightarrow> jsval \<Rightarrow> 'g \<Rightarrow> (js_error + jsval) \<times> 'g"

definition getContractQuote ::
    "'g gateway \<Rightarrow> string \<Rightarrow> string \<Rightarrow> jsval \<Rightarrow> 'g \<Rightarrow> (js_error + QuoteResult) \<times> 'g" where
  "getContractQuote gw tIn tOut aIn g =
     (case gw tIn tOut aIn g of
        (Inl e, g') \<Rightarrow> (Inl (Error ''Contract quote failed: '' e), g')
      | (Inr result, g') \<Rightarrow>
          (case parseContractQuoteResult result tIn tOut aIn of
             Inl e \<Rightarrow> (Inl (Error ''Contract quote failed: '' e), g')
           | Inr q \<Rightarrow> (Inr q, g')))"

text \<open>The state of a \<^verbatim>\<open>QuoterManager\<close>: the constructor arguments and the quote cache.\<close>

record manager =
  packageId :: string
  factoryId :: string
  quoteCache :: "string \<rightharpoonup> QuoteResult \<times> int"

definition getCommonIntermediateTokens :: "manager \<Rightarrow> string list" where
  "getCommonIntermediateTokens m = [packageId m @ ''::test_usdc::TEST_USDC'']"

text \<open>\<^verbatim>\<open>!quote.isValid || parseInt(quote.amountOut) === 0\<close>.\<close>

definition invalid_or_zero :: "QuoteResult \<Rightarrow> bool option" where
  "invalid_or_zero q =
     (if \<not> isValid q then Some True
      else map_option (\<lambda>n. n = Fin 0) (js_parseInt (amountOut q)))"

text \<open>
  The loop of \<^verbatim>\<open>getSingleHopQuotes\<close> over the intermediate tokens. Whatever is raised inside
  the \<^verbatim>\<open>try\<close> block of an iteration is caught there and the loop goes on.
\<close>

fun singleHopLoop ::
    "'g gateway \<Rightarrow> QuoteParams \<Rightarrow> string list \<Rightarrow> QuoteResult list \<Rightarrow> 'g
       \<Rightarrow> QuoteResult list \<times> 'g" where
  "singleHopLoop gw params [] routes g = (routes, g)"
| "singleHopLoop gw params (intermediate # rest) routes g =
     (if intermediate = tokenIn params \<or> intermediate = tokenOut params
      then singleHopLoop gw params rest routes g
      else
        case getContractQuote gw (tokenIn params) intermediate
               (JStr (params_amountIn params)) g of
          (Inl e, g1) \<Rightarrow> singleHopLoop gw params rest routes g1
        | (Inr firstHopQuote, g1) \<Rightarrow>
            (case invalid_or_zero firstHopQuote of
               None \<Rightarrow> singleHopLoop gw params rest routes g1
             | Some True \<Rightarrow> singleHopLoop gw params rest routes g1
             | Some False \<Rightarrow>
                 (case getContractQuote gw intermediate (tokenOut params)
                         (amountOut firstHopQuote) g1 of
                    (Inl e, g2) \<Rightarrow> singleHopLoop gw params rest routes g2
                  | (Inr secondHopQuote, g2) \<Rightarrow>
                      (case invalid_or_zero secondHopQuote of
                         None \<Rightarrow> singleHopLoop gw params rest routes g2
                       | Some True \<Rightarrow> singleHopLoop gw params rest routes g2
                       | Some False \<Rightarrow>
                           (case combineHops params firstHopQuote secondHopQuote
                                   intermediate of
                              None \<Rightarrow> singleHopLoop gw params rest routes g2
                            | Some combinedRoute \<Rightarrow>
                                singleHopLoop gw params rest
                                  (routes @ [combinedRoute]) g2)))))"

definition getSingleHopQuotes ::
    "'g gateway \<Rightarrow> manager \<Rightarrow> QuoteParams \<Rightarrow> 'g \<Rightarrow> (js_error + QuoteResult list) \<times> 'g" where
  "getSingleHopQuotes gw m params g =
     (case singleHopLoop gw params (getCommonIntermediateTokens m) [] g of
        (routes, g') \<Rightarrow>
          (case sort_routes routes of
             None \<Rightarrow> (Inl TypeError, g')
           | Some sortedRoutes \<Rightarrow> (Inr sortedRoutes, g')))"

text \<open>
  \<^verbatim>\<open>getMultiRouteQuotes\<close>. A failure of the direct quote is caught and logged by the inner
  \<^verbatim>\<open>try\<close>; anything raised later is rethrown by the outer \<^verbatim>\<open>catch\<close>. The branch for three
  hops is empty in the source.
\<close>

definition getMultiRouteQuotes ::
    "'g gateway \<Rightarrow> manager \<Rightarrow> QuoteParams \<Rightarrow> jsnum \<Rightarrow> 'g
       \<Rightarrow> (js_error + MultiRouteQuote) \<times> 'g" where
  "getMultiRouteQuotes gw m params maxHops g =
     (let wrap = Error ''Multi-route quote failed: '';
          (direct, g1) =
            (case getContractQuote gw (tokenIn params) (tokenOut params)
                    (JStr (params_amountIn params)) g of
               (Inl e, g') \<Rightarrow> (None, g')
             | (Inr directQuote, g') \<Rightarrow>
                 (if isValid directQuote then Some directQuote else None, g'));
          singles1 = (case direct of None \<Rightarrow> [] | Some d \<Rightarrow> [d]);
          (hopQuotes, g2) =
            (if js_ge maxHops (Fin 2) then getSingleHopQuotes gw m params g1 else (Inr [], g1))
      in case hopQuotes of
           Inl e \<Rightarrow> (Inl (wrap e), g2)
         | Inr singleHopQuotes \<Rightarrow>
             (let singles = singles1 @ singleHopQuotes;
                  allRoutes = singles @ []
              in if allRoutes = []
                 then (Inr \<lparr> directRoute = direct, singleHopRoutes = singles,
                             multiHopRoutes = [], bestRoute = createEmptyQuote \<rparr>, g2)
                 else case selectBestRoute
                             \<lparr> directRoute = None, singleHopRoutes = allRoutes,
                               multiHopRoutes = [], bestRoute = createEmptyQuote \<rparr> of
                        None \<Rightarrow> (Inl (wrap TypeError), g2)
                      | Some best \<Rightarrow>
                          (Inr \<lparr> directRoute = direct, singleHopRoutes = singles,
                                 multiHopRoutes = [], bestRoute = best \<rparr>, g2)))"

subsection \<open>The quote cache\<close>

text \<open>Times are the integer milliseconds returned by \<^verbatim>\<open>Date.now()\<close>.\<close>

definition CACHE_TTL :: int where
  "CACHE_TTL = 10000"

definition getCacheKey :: "QuoteParams \<Rightarrow> string" where
  "getCacheKey params =
     tokenIn params @ ''-'' @ tokenOut params @ ''-'' @ params_amountIn params"

definition getCachedQuote :: "manager \<Rightarrow> int \<Rightarrow> string \<Rightarrow> QuoteResult option" where
  "getCachedQuote m now key =
     (case quoteCache m key of
        None \<Rightarrow> None
      | Some (quote, timestamp) \<Rightarrow> if now - timestamp < CACHE_TTL then Some quote else None)"

definition cacheQuote :: "manager \<Rightarrow> int \<Rightarrow> string \<Rightarrow> QuoteResult \<Rightarrow> manager" where
  "cacheQuote m now key quote = m \<lparr> quoteCache := (quoteCache m)(key \<mapsto> (quote, now)) \<rparr>"

definition clearCache :: "manager \<Rightarrow> manager" where
  "clearCache m = m \<lparr> quoteCache := Map.empty \<rparr>"

subsection \<open>\<^verbatim>\<open>getBestQuote\<close>\<close>

text \<open>
  \<open>now_get\<close> and \<open>now_put\<close> are the values of \<^verbatim>\<open>Date.now()\<close> at the cache lookup and at the
  cache store of this call. The outcome is the returned quote or the rethrown error, the
  manager with its cache, and the world.
\<close>

definition getBestQuote ::
    "'g gateway \<Rightarrow> manager \<Rightarrow> QuoteParams \<Rightarrow> QuoteOptions \<Rightarrow> int \<Rightarrow> int \<Rightarrow> 'g
       \<Rightarrow> (js_error + QuoteResult) \<times> manager \<times> 'g" where
  "getBestQuote gw m params options now_get now_put g =
     (let wrap = Error ''Failed to get quote: '';
          maxHops = (case opt_maxHops options of None \<Rightarrow> Fin 3 | Some h \<Rightarrow> h);
          slippage = (case opt_slippageTolerance options of None \<Rightarrow> Fin 50 | Some s \<Rightarrow> s);
          includeGas = (case opt_includeGasEstimate options of None \<Rightarrow> True | Some b \<Rightarrow> b);
          cacheKey = getCacheKey params
      in case getCachedQuote m now_get cacheKey of
           Some cached \<Rightarrow> (Inr cached, m, g)
         | None \<Rightarrow>
             (case getMultiRouteQuotes gw m params maxHops g of
                (Inl e, g') \<Rightarrow> (Inl (wrap e), m, g')
              | (Inr multiRouteQuote, g') \<Rightarrow>
                  (case selectBestRoute multiRouteQuote of
                     None \<Rightarrow> (Inl (wrap TypeError), m, g')
                   | Some bestQuote \<Rightarrow>
                       (let enhancedQuote = enhanceQuote bestQuote slippage includeGas
                        in (Inr enhancedQuote, cacheQuote m now_put cacheKey enhancedQuote,
                            g')))))"

section \<open>Example worlds\<close>

text \<open>
  Gateways used to run the engine on concrete inputs. \<open>quote_response out fee\<close> is a response
  of the quoter entry point carrying an output amount and a fee. \<open>demo_gateway\<close> knows the two
  pools \<open>A \<rightarrow> USDC\<close> and \<open>USDC \<rightarrow> B\<close> and cannot be reached for any other request;
  \<open>down_gateway\<close> cannot be reached at all. Their world counts the calls made.
\<close>

definition quote_response :: "string \<Rightarrow> string \<Rightarrow> jsval" where
  "quote_response out fee =
     JObj [(''results'',
            JArr [JObj [(''returnValues'',
                         JArr [JArr [JStr out], JArr [JStr ''0''], JArr [JStr fee],
                               JArr [JStr ''150000'']])]])]"

definition demo_gateway :: "nat gateway" where
  "demo_gateway tIn tOut aIn n =
     (if tIn = ''A'' \<and> tOut = ''0x2::test_usdc::TEST_USDC'' \<and> aIn = JStr ''100''
      then Inr (quote_response ''90'' ''1'')
      else if tIn = ''0x2::test_usdc::TEST_USDC'' \<and> tOut = ''B'' \<and> aIn = JStr ''90''
      then Inr (quote_response ''80'' ''1'')
      else Inl (TransportError ''unreachable''),
      Suc n)"

definition down_gateway :: "nat gateway" where
  "down_gateway tIn tOut aIn n = (Inl (TransportError ''unreachable''), Suc n)"

definition demo_manager :: manager where
  "demo_manager = \<lparr> packageId = ''0x2'', factoryId = ''0x3'', quoteCache = Map.empty \<rparr>"

definition demo_params :: QuoteParams where
  "demo_params = \<lparr> tokenIn = ''A'', tokenOut = ''B'', params_amountIn = ''100'' \<rparr>"

definition default_options :: QuoteOptions where
  "default_options =
     \<lparr> opt_maxHops = None, opt_slippageTolerance = None, opt_includeGasEstimate = None \<rparr>"

text \<open>The two hop quotes of the demo world and the quote composed of them.\<close>

definition hop_quote :: "string \<Rightarrow> string \<Rightarrow> string \<Rightarrow> string \<Rightarrow> string \<Rightarrow> QuoteResult" where
  "hop_quote tIn tOut aIn out fee =
     \<lparr> amountOut = JStr out, amountIn = JStr aIn, priceImpact = ''0'',
       feeAmount = JStr fee, gasEstimate = JStr ''150000'', poolId = '''',
       route = \<lparr> hops = [\<lparr> hop_poolId = '''', hop_tokenIn = tIn, hop_tokenOut = tOut,
                             hop_binStep = Fin 25, expectedAmountIn = JStr aIn,
                             expectedAmountOut = JStr out, expectedFee = JStr fee,
                             hop_priceImpact = ''0'' \<rparr>],
                 totalFee = JStr fee, estimatedGas = JStr ''150000'',
                 route_priceImpact = ''0'', routeType = Direct \<rparr>,
       isValid = True, slippageTolerance = Fin 50 \<rparr>"

definition demo_combined :: QuoteResult where
  "demo_combined =
     \<lparr> amountOut = JStr ''80'', amountIn = JStr ''100'', priceImpact = ''0'',
       feeAmount = JStr ''2'', gasEstimate = JStr ''300000'', poolId = '''',
       route = \<lparr> hops = hops (route (hop_quote ''A'' ''0x2::test_usdc::TEST_USDC'' ''100'' ''90'' ''1''))
                        @ hops (route (hop_quote ''0x2::test_usdc::TEST_USDC'' ''B'' ''90'' ''80'' ''1'')),
                 totalFee = JStr ''2'', estimatedGas = JStr ''300000'',
                 route_priceImpact = ''0'', routeType = MultiHop \<rparr>,
       isValid = True, slippageTolerance = Fin 50 \<rparr>"

section \<open>The route composition invariant\<close>

text \<open>
  A hop list is chained when every hop ends in the token the next hop starts from; a quote
  answers a request when its route is a chained, non-empty hop list leading from the
  request's input token to its output token.
\<close>

definition chained :: "RouteHop list \<Rightarrow> bool" where
  "chained hs = (\<forall>i. Suc i < length hs \<longrightarrow> hop_tokenOut (hs ! i) = hop_tokenIn (hs ! Suc i))"

definition route_invariant :: "QuoteParams \<Rightarrow> QuoteResult \<Rightarrow> bool" where
  "route_invariant params q =
     (hops (route q) \<noteq> []
      \<and> hop_tokenIn (hd (hops (route q))) = tokenIn params
      \<and> hop_tokenOut (last (hops (route q))) = tokenOut params
      \<and> chained (hops (route q)))"

section \<open>Ranking\<close>

text \<open>
  A quote has a score when \<^verbatim>\<open>calculateRouteScore\<close> returns a number other than \<open>NaN\<close> for it.
  \<open>first_best xs r\<close> says that \<open>r\<close> is the first entry of \<open>xs\<close> with the greatest score: every
  entry before it scores strictly less, no entry after it scores more.
\<close>

definition has_score :: "QuoteResult \<Rightarrow> bool" where
  "has_score q = (case calculateRouteScore q of None \<Rightarrow> False | Some x \<Rightarrow> x \<noteq> NaN)"

definition score :: "QuoteResult \<Rightarrow> jsnum" where
  "score q = (case calculateRouteScore q of None \<Rightarrow> NaN | Some x \<Rightarrow> x)"

definition first_best :: "QuoteResult list \<Rightarrow> QuoteResult \<Rightarrow> bool" where
  "first_best xs r =
     (\<exists>before after. xs = before @ r # after
        \<and> (\<forall>x \<in> set before. js_lt (score x) (score r))
        \<and> (\<forall>x \<in> set after. \<not> js_lt (score r) (score x)))"

text \<open>A quote with the given output amount and fee, no gas estimate and no price impact.\<close>

definition plain_quote :: "string \<Rightarrow> string \<Rightarrow> string \<Rightarrow> QuoteResult" where
  "plain_quote name out fee =
     (hop_quote ''A'' ''B'' ''100'' out fee) \<lparr> gasEstimate := JStr ''0'', poolId := name \<rparr>"

section \<open>The slippage multiplier\<close>

text \<open>
  The value of \<^verbatim>\<open>(10000 - slippageBps) / 10000\<close> for a slippage between 0 and 10000 basis
  points: both the difference and the quotient are rounded.
\<close>

definition multiplier :: "rat \<Rightarrow> rat" where
  "multiplier s = rnd (rnd (10000 - s) / 10000)"

section \<open>Gateway failures\<close>

text \<open>A gateway is unreachable when it raises on every request.\<close>

definition unreachable :: "'g gateway \<Rightarrow> bool" where
  "unreachable gw = (\<forall>tIn tOut aIn g. \<exists>e. fst (gw tIn tOut aIn g) = Inl e)"

section \<open>Positional values\<close>

text \<open>
  The value the parser takes for position \<open>i\<close> of \<^verbatim>\<open>returnValues\<close>: the first element of
  \<^verbatim>\<open>returnValues[i]\<close>, unless that is absent or falsy; then the default.
\<close>

definition taken :: "jsval \<Rightarrow> nat \<Rightarrow> string \<Rightarrow> jsval" where
  "taken rv i dflt =
     (if truthy (opt_index (opt_index rv i) 0) then opt_index (opt_index rv i) 0 else JStr dflt)"
section \<open>Properties of the number model\<close>

lemma pow2_powi: "pow2 e = 2 powi e"
  by (simp add: pow2_def power_int_def field_simps)

lemma pow2_pos [simp]: "0 < pow2 e"
  by (simp add: pow2_powi)

lemma pow2_add: "pow2 (a + b) = pow2 a * pow2 b"
  by (simp add: pow2_powi power_int_add)

lemma pow2_mono: "a \<le> b \<Longrightarrow> pow2 a \<le> pow2 b"
  by (simp add: pow2_powi power_int_increasing)

lemma pow2_strict_mono: "a < b \<Longrightarrow> pow2 a < pow2 b"
  by (simp add: pow2_powi power_int_strict_increasing)

lemma pow2_nat: "pow2 (int n) = 2 ^ n"
  by (simp add: pow2_def)

lemma bitlen_nonneg: "0 \<le> bitlen n"
  by (induction n rule: bitlen.induct) (simp add: bitlen.simps)

lemma bitlen_bounds:
  "0 < n \<Longrightarrow> 2 ^ nat (bitlen n - 1) \<le> n \<and> n < 2 ^ nat (bitlen n)"
proof (induction n rule: bitlen.induct)
  case (1 n)
  show ?case
  proof (cases "n = 1")
    case True
    then show ?thesis by (simp add: bitlen.simps)
  next
    case False
    with 1 have pos: "0 < n div 2" by simp
    with 1 have ih: "2 ^ nat (bitlen (n div 2) - 1) \<le> n div 2" "n div 2 < 2 ^ nat (bitlen (n div 2))"
      by simp_all
    have b: "bitlen n = 1 + bitlen (n div 2)" using 1(2) by (simp add: bitlen.simps)
    have bp: "1 \<le> bitlen (n div 2)" using pos bitlen_nonneg[of "n div 2 div 2"] by (simp add: bitlen.simps)
    have e1: "nat (bitlen n - 1) = Suc (nat (bitlen (n div 2) - 1))" using b bp by simp
    have e2: "nat (bitlen n) = Suc (nat (bitlen (n div 2)))" using b bp by simp
    show ?thesis unfolding e1 e2 using ih by simp linarith
  qed
qed


lemma bitlen_bounds_rat:
  assumes "0 < n"
  shows "pow2 (bitlen n - 1) \<le> of_int n" and "of_int n < pow2 (bitlen n)"
proof -
  from bitlen_bounds[OF assms] have a: "2 ^ nat (bitlen n - 1) \<le> n" and b: "n < 2 ^ nat (bitlen n)"
    by simp_all
  have bp: "1 \<le> bitlen n" using assms bitlen_nonneg[of "n div 2"] by (simp add: bitlen.simps)
  have "pow2 (bitlen n - 1) = of_int (2 ^ nat (bitlen n - 1))" using bp by (simp add: pow2_def)
  also have "\<dots> \<le> of_int n" using a by (simp only: of_int_le_iff)
  finally show "pow2 (bitlen n - 1) \<le> of_int n" .
  have "(of_int n :: rat) < of_int (2 ^ nat (bitlen n))" using b by (simp only: of_int_less_iff)
  also have "\<dots> = pow2 (bitlen n)" using bp by (simp add: pow2_def)
  finally show "of_int n < pow2 (bitlen n)" .
qed

lemma ilog2_bounds:
  assumes "0 < x"
  shows "pow2 (ilog2 x) \<le> x" and "x < pow2 (ilog2 x + 1)"
proof -
  obtain p q where pq: "quotient_of x = (p, q)" by (cases "quotient_of x")
  have q: "0 < q" using pq by (rule quotient_of_denom_pos)
  have x: "x = of_int p / of_int q" using pq by (rule quotient_of_div)
  have p: "0 < p" using assms q x by (simp add: zero_less_divide_iff)
  define d where "d = bitlen p - bitlen q"
  have il: "ilog2 x = (if pow2 d \<le> x then d else d - 1)"
    by (simp add: ilog2_def pq d_def Let_def)
  have qr: "(0::rat) < of_int q" using q by simp
  have lo: "pow2 (d - 1) \<le> x"
  proof -
    have "pow2 (d - 1) * of_int q \<le> pow2 (d - 1) * pow2 (bitlen q)"
      using bitlen_bounds_rat(2)[OF q] by (simp add: less_imp_le)
    also have "\<dots> = pow2 (bitlen p - 1)" by (simp add: d_def flip: pow2_add)
    also have "\<dots> \<le> of_int p" using bitlen_bounds_rat(1)[OF p] .
    finally show ?thesis using qr by (simp add: x pos_le_divide_eq)
  qed
  have hi: "x < pow2 (d + 1)"
  proof -
    have "of_int p < pow2 (bitlen p)" using bitlen_bounds_rat(2)[OF p] .
    also have "\<dots> = pow2 (d + 1) * pow2 (bitlen q - 1)" by (simp add: d_def flip: pow2_add)
    also have "\<dots> \<le> pow2 (d + 1) * of_int q"
      using bitlen_bounds_rat(1)[OF q] by simp
    finally show ?thesis using qr by (simp add: x pos_divide_less_eq)
  qed
  show "pow2 (ilog2 x) \<le> x" using lo by (simp add: il)
  show "x < pow2 (ilog2 x + 1)" using hi by (auto simp: il not_le)
qed

lemma ilog2_unique:
  assumes "pow2 e \<le> x" "x < pow2 (e + 1)"
  shows "ilog2 x = e"
proof -
  have x: "0 < x" using assms(1) pow2_pos[of e] by linarith
  have a: "pow2 (ilog2 x) < pow2 (e + 1)" using ilog2_bounds(1)[OF x] assms(2) by linarith
  have b: "pow2 e < pow2 (ilog2 x + 1)" using ilog2_bounds(2)[OF x] assms(1) by linarith
  have "ilog2 x < e + 1" using a pow2_mono[of "e + 1" "ilog2 x"] by (cases "ilog2 x < e + 1") auto
  moreover have "e < ilog2 x + 1" using b pow2_mono[of "ilog2 x + 1" e] by (cases "e < ilog2 x + 1") auto
  ultimately show ?thesis by simp
qed

lemma ilog2_mono:
  assumes "0 < x" "x \<le> y"
  shows "ilog2 x \<le> ilog2 y"
proof (rule ccontr)
  assume "\<not> ilog2 x \<le> ilog2 y"
  then have "ilog2 y + 1 \<le> ilog2 x" by simp
  then have "pow2 (ilog2 y + 1) \<le> pow2 (ilog2 x)" by (rule pow2_mono)
  moreover have "0 < y" using assms by simp
  ultimately show False
    using ilog2_bounds(1)[OF assms(1)] ilog2_bounds(2)[OF \<open>0 < y\<close>] assms(2) by linarith
qed

lemma round_half_even_of_int [simp]: "round_half_even (of_int n) = n"
  by (simp add: round_half_even_def)


lemma rhe_cases:
  obtains (down) "q - of_int \<lfloor>q\<rfloor> < 1/2" "round_half_even q = \<lfloor>q\<rfloor>"
  | (up) "1/2 < q - of_int \<lfloor>q\<rfloor>" "round_half_even q = \<lfloor>q\<rfloor> + 1"
  | (tie_even) "q - of_int \<lfloor>q\<rfloor> = 1/2" "even \<lfloor>q\<rfloor>" "round_half_even q = \<lfloor>q\<rfloor>"
  | (tie_odd) "q - of_int \<lfloor>q\<rfloor> = 1/2" "odd \<lfloor>q\<rfloor>" "round_half_even q = \<lfloor>q\<rfloor> + 1"
proof -
  consider "q - of_int \<lfloor>q\<rfloor> < 1/2" | "1/2 < q - of_int \<lfloor>q\<rfloor>" | "q - of_int \<lfloor>q\<rfloor> = 1/2"
    by linarith
  then show ?thesis
  proof cases
    case 1
    then show ?thesis using down by (simp add: round_half_even_def Let_def)
  next
    case 2
    then show ?thesis using up by (simp add: round_half_even_def Let_def)
  next
    case 3
    then show ?thesis using tie_even tie_odd by (cases "even \<lfloor>q\<rfloor>") (simp_all add: round_half_even_def Let_def)
  qed
qed

lemma round_half_even_bounds:
  "of_int (round_half_even q) \<le> q + 1/2" "q - 1/2 \<le> of_int (round_half_even q)"
proof -
  have a: "of_int \<lfloor>q\<rfloor> \<le> q" "q < of_int \<lfloor>q\<rfloor> + 1" by linarith+
  have "of_int (round_half_even q) \<le> q + 1/2 \<and> q - 1/2 \<le> of_int (round_half_even q)"
  proof (cases q rule: rhe_cases)
    case down
    show ?thesis unfolding down(2) using a down(1) by linarith
  next
    case up
    show ?thesis unfolding up(2) of_int_add of_int_1 using a up(1) by linarith
  next
    case tie_even
    show ?thesis unfolding tie_even(3) using a tie_even(1) by linarith
  next
    case tie_odd
    show ?thesis unfolding tie_odd(3) of_int_add of_int_1 using a tie_odd(1) by linarith
  qed
  then show "of_int (round_half_even q) \<le> q + 1/2" "q - 1/2 \<le> of_int (round_half_even q)"
    by simp_all
qed

lemma round_half_even_floor: "\<lfloor>q\<rfloor> \<le> round_half_even q" "round_half_even q \<le> \<lfloor>q\<rfloor> + 1"
  by (cases q rule: rhe_cases; simp)+

lemma round_half_even_mono:
  assumes "q \<le> r"
  shows "round_half_even q \<le> round_half_even r"
proof (cases "\<lfloor>q\<rfloor> = \<lfloor>r\<rfloor>")
  case True
  show ?thesis
  proof (cases q rule: rhe_cases)
    case down
    then show ?thesis using round_half_even_floor(1)[of r] True by simp
  next
    case up
    then have "1/2 < r - of_int \<lfloor>r\<rfloor>" using assms True by simp
    then have "round_half_even r = \<lfloor>r\<rfloor> + 1" by (simp add: round_half_even_def Let_def)
    then show ?thesis using up True by simp
  next
    case tie_even
    then show ?thesis using round_half_even_floor(1)[of r] True by simp
  next
    case tie_odd
    then have "1/2 \<le> r - of_int \<lfloor>r\<rfloor>" "odd \<lfloor>r\<rfloor>" using assms True by simp_all
    then have "round_half_even r = \<lfloor>r\<rfloor> + 1" by (simp add: round_half_even_def Let_def)
    then show ?thesis using tie_odd True by simp
  qed
next
  case False
  then have "\<lfloor>q\<rfloor> < \<lfloor>r\<rfloor>" using floor_mono[OF assms] by simp
  then show ?thesis using round_half_even_floor(2)[of q] round_half_even_floor(1)[of r] by linarith
qed

lemma round_half_even_minus: "round_half_even (- q) = - round_half_even q"
proof (cases "q \<in> \<int>")
  case True
  then obtain n where "q = of_int n" by (auto elim: Ints_cases)
  then show ?thesis by (simp flip: of_int_minus)
next
  case False
  then have "of_int \<lfloor>q\<rfloor> \<noteq> q" by (metis Ints_of_int)
  then have lt: "of_int \<lfloor>q\<rfloor> < q" "q < of_int \<lfloor>q\<rfloor> + 1" by linarith+
  have fl: "\<lfloor>- q\<rfloor> = - \<lfloor>q\<rfloor> - 1"
    by (rule floor_unique) (use lt in simp_all)
  have d: "- q - of_int \<lfloor>- q\<rfloor> = 1 - (q - of_int \<lfloor>q\<rfloor>)" by (simp add: fl)
  show ?thesis
  proof (cases q rule: rhe_cases)
    case down
    then have "1/2 < - q - of_int \<lfloor>- q\<rfloor>" unfolding d by linarith
    then have "round_half_even (- q) = \<lfloor>- q\<rfloor> + 1" by (simp add: round_half_even_def Let_def)
    then show ?thesis using down fl by simp
  next
    case up
    then have "- q - of_int \<lfloor>- q\<rfloor> < 1/2" unfolding d by linarith
    then have "round_half_even (- q) = \<lfloor>- q\<rfloor>" by (simp add: round_half_even_def Let_def)
    then show ?thesis using up fl by simp
  next
    case tie_even
    then have "- q - of_int \<lfloor>- q\<rfloor> = 1/2" "odd \<lfloor>- q\<rfloor>" unfolding d by (simp_all add: fl)
    then have "round_half_even (- q) = \<lfloor>- q\<rfloor> + 1" by (simp add: round_half_even_def Let_def)
    then show ?thesis using tie_even fl by simp
  next
    case tie_odd
    then have "- q - of_int \<lfloor>- q\<rfloor> = 1/2" "even \<lfloor>- q\<rfloor>" unfolding d by (simp_all add: fl)
    then have "round_half_even (- q) = \<lfloor>- q\<rfloor>" by (simp add: round_half_even_def Let_def)
    then show ?thesis using tie_odd fl by simp
  qed
qed

lemma fexp_minus [simp]: "fexp (- x) = fexp x"
  by (simp add: fexp_def abs_of_pos)

lemma fexp_pos: "0 < x \<Longrightarrow> fexp x = max (ilog2 x) (- 1022) - 52"
  by (simp add: fexp_def abs_of_pos)

lemma pow2_nonzero [simp]: "pow2 e \<noteq> 0"
  by (rule not_sym, rule less_imp_neq, rule pow2_pos)

lemma rnd_minus: "rnd (- x) = - rnd x"
  by (simp add: rnd_def round_half_even_minus)

lemma rnd_0 [simp]: "rnd 0 = 0"
  by (simp add: rnd_def)

lemma round_half_even_nonneg: "0 \<le> q \<Longrightarrow> 0 \<le> round_half_even q"
  using round_half_even_mono[of 0 q] round_half_even_of_int[of 0] by simp

lemma rnd_nonneg: "0 \<le> x \<Longrightarrow> 0 \<le> rnd x"
  by (simp add: rnd_def round_half_even_nonneg less_imp_le)

lemma rnd_nonpos: "x \<le> 0 \<Longrightarrow> rnd x \<le> 0"
  using rnd_nonneg[of "- x"] by (simp add: rnd_minus)

lemma fexp_mono: "0 < x \<Longrightarrow> x \<le> y \<Longrightarrow> fexp x \<le> fexp y"
  using ilog2_mono[of x y] by (simp add: fexp_def)

text \<open>The scaled significand of a positive number lies below \<open>2^53\<close>, and at or above
  \<open>2^52\<close> in the normal range.\<close>

lemma scaled_upper:
  assumes "0 < x"
  shows "x / pow2 (fexp x) < 2 ^ 53"
proof -
  have "x < pow2 (ilog2 x + 1)" using ilog2_bounds(2)[OF assms] .
  also have "\<dots> \<le> pow2 (fexp x + 53)" by (rule pow2_mono) (simp add: fexp_pos[OF assms])
  also have "\<dots> = pow2 (fexp x) * 2 ^ 53" by (simp add: pow2_add pow2_nat[of 53, simplified])
  finally show ?thesis by (simp add: pos_divide_less_eq mult.commute)
qed

lemma scaled_lower:
  assumes "0 < x" "- 1022 \<le> ilog2 x"
  shows "2 ^ 52 \<le> x / pow2 (fexp x)"
proof -
  have e: "fexp x + 52 = ilog2 x" using assms by (simp add: fexp_pos)
  have "pow2 (fexp x) * 2 ^ 52 = pow2 (fexp x + 52)" by (simp add: pow2_add pow2_nat[of 52, simplified])
  also have "\<dots> \<le> x" unfolding e using ilog2_bounds(1)[OF assms(1)] .
  finally show ?thesis by (simp add: pos_le_divide_eq mult.commute)
qed

lemma rnd_upper:
  assumes "0 < x"
  shows "rnd x \<le> pow2 (fexp x + 53)"
proof -
  have "round_half_even (x / pow2 (fexp x)) \<le> round_half_even (of_int (2 ^ 53))"
    by (rule round_half_even_mono) (use scaled_upper[OF assms] in simp)
  then have "round_half_even (x / pow2 (fexp x)) \<le> 2 ^ 53"
    by (simp only: round_half_even_of_int)
  then have "(of_int (round_half_even (x / pow2 (fexp x))) :: rat) \<le> of_int (2 ^ 53)"
    by (simp only: of_int_le_iff)
  then have "rnd x \<le> 2 ^ 53 * pow2 (fexp x)"
    using assms by (simp add: rnd_def)
  then show ?thesis by (simp add: pow2_add pow2_nat[of 53, simplified] mult.commute)
qed

lemma rnd_lower:
  assumes "0 < x" "- 1022 \<le> ilog2 x"
  shows "pow2 (ilog2 x) \<le> rnd x"
proof -
  have e: "fexp x + 52 = ilog2 x" using assms by (simp add: fexp_pos)
  have "round_half_even (of_int (2 ^ 52)) \<le> round_half_even (x / pow2 (fexp x))"
    by (rule round_half_even_mono) (use scaled_lower[OF assms] in simp)
  then have "2 ^ 52 \<le> round_half_even (x / pow2 (fexp x))"
    by (simp only: round_half_even_of_int)
  then have "(of_int (2 ^ 52) :: rat) \<le> of_int (round_half_even (x / pow2 (fexp x)))"
    by (simp only: of_int_le_iff)
  then have "2 ^ 52 * pow2 (fexp x) \<le> rnd x"
    using assms by (simp add: rnd_def)
  moreover have "2 ^ 52 * pow2 (fexp x) = pow2 (ilog2 x)"
    unfolding e[symmetric] by (simp add: pow2_add pow2_nat[of 52, simplified] mult.commute)
  ultimately show ?thesis by simp
qed

lemma rnd_mono_pos:
  assumes "0 < x" "x \<le> y"
  shows "rnd x \<le> rnd y"
proof (cases "fexp x = fexp y")
  case True
  have y: "0 < y" using assms by simp
  have "x / pow2 (fexp y) \<le> y / pow2 (fexp y)"
    using assms(2) by (simp add: divide_right_mono less_imp_le)
  then have "round_half_even (x / pow2 (fexp y)) \<le> round_half_even (y / pow2 (fexp y))"
    by (rule round_half_even_mono)
  then have "(of_int (round_half_even (x / pow2 (fexp y))) :: rat)
      \<le> of_int (round_half_even (y / pow2 (fexp y)))"
    by (simp only: of_int_le_iff)
  then show ?thesis using assms y True by (simp add: rnd_def)
next
  case False
  have y: "0 < y" using assms by simp
  have lt: "fexp x < fexp y" using False fexp_mono[OF assms] by simp
  then have ny: "- 1022 < ilog2 y" and ey: "fexp y + 52 = ilog2 y"
    by (auto simp: fexp_pos[OF assms(1)] fexp_pos[OF y] max_def split: if_splits)
  have "rnd x \<le> pow2 (fexp x + 53)" by (rule rnd_upper[OF assms(1)])
  also have "\<dots> \<le> pow2 (ilog2 y)" by (rule pow2_mono) (use lt ey in simp)
  also have "\<dots> \<le> rnd y" by (rule rnd_lower[OF y]) (use ny in simp)
  finally show ?thesis .
qed

lemma rnd_mono:
  assumes "x \<le> y"
  shows "rnd x \<le> rnd y"
proof -
  consider "0 < x" | "x \<le> 0" "0 \<le> y" | "y < 0" by linarith
  then show ?thesis
  proof cases
    case 1
    then show ?thesis using assms by (rule rnd_mono_pos)
  next
    case 2
    then show ?thesis using rnd_nonpos[of x] rnd_nonneg[of y] by simp
  next
    case 3
    then have "rnd (- y) \<le> rnd (- x)" using assms by (intro rnd_mono_pos) simp_all
    then show ?thesis by (simp add: rnd_minus)
  qed
qed

lemma rnd_exact:
  assumes "x / pow2 (fexp x) = of_int m"
  shows "rnd x = x"
proof (cases "x = 0")
  case True
  then show ?thesis by simp
next
  case False
  have "rnd x = of_int m * pow2 (fexp x)" using False assms by (simp add: rnd_def)
  also have "\<dots> = x" using assms[symmetric] by simp
  finally show ?thesis .
qed

lemma round_half_even_near:
  assumes "\<bar>q - of_int m\<bar> < 1/2"
  shows "round_half_even q = m"
proof -
  have "\<bar>(of_int (round_half_even q) :: rat) - of_int m\<bar> < 1"
    using round_half_even_bounds[of q] assms by linarith
  then have "\<bar>(of_int (round_half_even q - m) :: rat)\<bar> < 1" by simp
  then have "\<bar>round_half_even q - m\<bar> < 1"
    by (metis of_int_1 of_int_abs of_int_less_iff)
  then show ?thesis by simp
qed

lemma round_half_even_tie:
  assumes "\<bar>q - of_int m\<bar> = 1/2" "even m"
  shows "round_half_even q = m"
proof -
  consider "q = of_int m + 1/2" | "q = of_int m - 1/2" using assms(1) by (auto simp: abs_if split: if_splits)
  then show ?thesis
  proof cases
    case 1
    then have "\<lfloor>q\<rfloor> = m" by (intro floor_unique) simp_all
    then show ?thesis using 1 assms(2) by (simp add: round_half_even_def Let_def)
  next
    case 2
    then have f: "\<lfloor>q\<rfloor> = m - 1" by (intro floor_unique) simp_all
    then have "odd \<lfloor>q\<rfloor>" using assms(2) by simp
    then show ?thesis using 2 f by (simp add: round_half_even_def Let_def)
  qed
qed

text \<open>Numbers of the form \<open>m \<times> 2^e\<close> with at most 53 significant bits are not changed by rounding.\<close>

lemma ilog2_scaled:
  assumes "0 < m"
  shows "ilog2 (of_int m * pow2 e) = bitlen m - 1 + e"
proof (rule ilog2_unique)
  show "pow2 (bitlen m - 1 + e) \<le> of_int m * pow2 e"
    using bitlen_bounds_rat(1)[OF assms] by (simp add: pow2_add)
  show "of_int m * pow2 e < pow2 (bitlen m - 1 + e + 1)"
    using bitlen_bounds_rat(2)[OF assms] by (simp add: pow2_add)
qed

lemma bitlen_le:
  assumes "0 < m" "m < 2 ^ k"
  shows "bitlen m \<le> int k"
proof (rule ccontr)
  assume "\<not> bitlen m \<le> int k"
  then have "int k \<le> bitlen m - 1" by simp
  then have "pow2 (int k) \<le> pow2 (bitlen m - 1)" by (rule pow2_mono)
  also have "\<dots> \<le> of_int m" using bitlen_bounds_rat(1)[OF assms(1)] .
  finally have "(2::rat) ^ k \<le> of_int m" by (simp add: pow2_nat)
  then have "(of_int (2 ^ k) :: rat) \<le> of_int m" by simp
  then have "2 ^ k \<le> m" by (simp only: of_int_le_iff)
  then show False using assms(2) by simp
qed

lemma rnd_repr_pos:
  assumes "0 < m" "m < 2 ^ 53" "- 1074 \<le> e"
  shows "rnd (of_int m * pow2 e) = of_int m * pow2 e"
proof -
  define x where "x = of_int m * pow2 e"
  have x: "0 < x" using assms(1) by (simp add: x_def)
  have "bitlen m \<le> 53" using bitlen_le[OF assms(1,2)] by simp
  moreover have "ilog2 x = bitlen m - 1 + e" unfolding x_def by (rule ilog2_scaled[OF assms(1)])
  moreover have "fexp x = max (ilog2 x) (- 1022) - 52" by (rule fexp_pos[OF x])
  ultimately have "fexp x \<le> e" using assms(3) by simp
  define f where "f = fexp x"
  have "f \<le> e" using \<open>fexp x \<le> e\<close> by (simp add: f_def)
  then obtain d where d: "e = f + int d"
    by (metis nonneg_int_cases diff_ge_0_iff_ge add_diff_cancel_left' diff_add_cancel add.commute)
  have "x / pow2 f = of_int m * (pow2 e / pow2 f)" by (simp add: x_def)
  also have "pow2 e / pow2 f = pow2 (int d)" by (simp add: d pow2_add)
  also have "of_int m * pow2 (int d) = of_int (m * 2 ^ d)" by (simp add: pow2_nat)
  finally have "x / pow2 (fexp x) = of_int (m * 2 ^ d)" by (simp add: f_def)
  then show ?thesis unfolding x_def[symmetric] by (rule rnd_exact)
qed

lemma rnd_repr:
  assumes "\<bar>m\<bar> \<le> 2 ^ 53" "- 1074 \<le> e"
  shows "rnd (of_int m * pow2 e) = of_int m * pow2 e"
proof -
  have pos: "rnd (of_int k * pow2 e) = of_int k * pow2 e" if "0 < k" "k \<le> 2 ^ 53" for k
  proof (cases "k = 2 ^ 53")
    case True
    have "of_int k * pow2 e = of_int 1 * pow2 (e + 53)"
      unfolding True by (simp add: pow2_add pow2_nat[of 53, simplified])
    moreover have "rnd (of_int 1 * pow2 (e + 53)) = of_int 1 * pow2 (e + 53)"
      by (rule rnd_repr_pos) (use assms(2) in simp_all)
    ultimately show ?thesis by simp
  next
    case False
    then show ?thesis using that assms(2) by (intro rnd_repr_pos) simp_all
  qed
  consider "m = 0" | "0 < m" | "m < 0" by linarith
  then show ?thesis
  proof cases
    case 1
    then show ?thesis by simp
  next
    case 2
    then show ?thesis using pos[of m] assms(1) by simp
  next
    case 3
    then have "rnd (of_int (- m) * pow2 e) = of_int (- m) * pow2 e"
      using assms(1) by (intro pos) simp_all
    then show ?thesis by (simp add: rnd_minus)
  qed
qed

lemma fround_repr:
  assumes "\<bar>m\<bar> \<le> 2 ^ 53" "- 1074 \<le> e" "\<bar>of_int m * pow2 e\<bar> < pow2 1024"
  shows "fround (of_int m * pow2 e) = Fin (of_int m * pow2 e)"
  using assms(3) by (simp add: fround_def rnd_repr[OF assms(1,2)] Let_def abs_less_iff not_le)

lemma fround_of_int:
  assumes "\<bar>n\<bar> \<le> 2 ^ 53"
  shows "fround (of_int n) = Fin (of_int n)"
proof -
  have "\<bar>(of_int n :: rat)\<bar> \<le> of_int (2 ^ 53)" using assms by (simp only: of_int_abs[symmetric] of_int_le_iff)
  also have "\<dots> < pow2 1024" by (simp add: pow2_def)
  finally have "\<bar>of_int n * pow2 0\<bar> < pow2 1024" by (simp add: pow2_def)
  from fround_repr[OF assms _ this] show ?thesis by (simp add: pow2_def)
qed

lemma fround_0 [simp]: "fround 0 = Fin 0"
  using fround_of_int[of 0] by simp

lemma fround_1 [simp]: "fround 1 = Fin 1"
  using fround_of_int[of 1] by simp

lemma fround_numeral [simp]:
  "numeral k \<le> (9007199254740992::int) \<Longrightarrow> fround (numeral k) = Fin (numeral k)"
  using fround_of_int[of "numeral k"] by simp

lemma fround_neg_numeral [simp]:
  "numeral k \<le> (9007199254740992::int) \<Longrightarrow> fround (- numeral k) = Fin (- numeral k)"
  using fround_of_int[of "- numeral k"] by simp

text \<open>Evaluating \<open>fround\<close> at a given input: supply the binary exponent and the significand.\<close>

lemma fround_eval:
  assumes "pow2 e \<le> \<bar>x\<bar>" "\<bar>x\<bar> < pow2 (e + 1)" "- 1022 \<le> e" "e \<le> 1023"
    and "\<bar>x / pow2 (e - 52) - of_int m\<bar> < 1/2 \<or> \<bar>x / pow2 (e - 52) - of_int m\<bar> = 1/2 \<and> even m"
    and "\<bar>m\<bar> < 2 ^ 53"
  shows "fround x = Fin (of_int m * pow2 (e - 52))"
proof -
  have il: "ilog2 \<bar>x\<bar> = e" using assms(1,2) by (rule ilog2_unique)
  have fe: "fexp x = e - 52" using assms(3) by (simp add: fexp_def il)
  have "0 < \<bar>x\<bar>" by (rule less_le_trans[OF pow2_pos assms(1)])
  then have x0: "x \<noteq> 0" by simp
  have r: "round_half_even (x / pow2 (e - 52)) = m"
    using assms(5) round_half_even_near round_half_even_tie by blast
  have rn: "rnd x = of_int m * pow2 (e - 52)" using x0 by (simp add: rnd_def fe r)
  have "\<bar>(of_int m :: rat)\<bar> < of_int (2 ^ 53)" using assms(6) by (simp only: of_int_abs[symmetric] of_int_less_iff)
  then have "\<bar>of_int m\<bar> * pow2 (e - 52) < 2 ^ 53 * pow2 (e - 52)"
    by (intro mult_strict_right_mono) simp_all
  then have "\<bar>of_int m * pow2 (e - 52)\<bar> < 2 ^ 53 * pow2 (e - 52)"
    by (simp add: abs_mult abs_of_pos)
  also have "2 ^ 53 * pow2 (e - 52) = pow2 53 * pow2 (e - 52)" by (simp add: pow2_def)
  also have "\<dots> = pow2 (e + 1)" by (simp add: add.commute flip: pow2_add)
  also have "\<dots> \<le> pow2 1024" by (rule pow2_mono) (use assms(4) in simp)
  finally show ?thesis by (simp add: fround_def rn Let_def abs_less_iff not_le)
qed

section \<open>Evaluation lemmas\<close>

lemmas str_eval = parseInt_str_def parseFloat_str_def exponent_part_def starts_with_def is_ws_def
  is_digit_def is_hex_digit_def digits_value_def digit_val_def pow10_def digit_char_def
  pos_toString_def dec_nat.simps dec_int_def Let_def

lemmas parse_eval = parse_body_def return_values_def position_def opt_index_def opt_prop_def
  js_or_def js_parseInt_def js_parseFloat_def js_gt_def parseContractQuoteResult_def
  quote_response_def

lemma dec_nat_0: "dec_nat 0 = ''0''"
  by (simp add: dec_nat.simps digit_char_def)

lemma num_toString_int:
  assumes "\<bar>n\<bar> \<le> 2 ^ 53"
  shows "num_toString (Fin (of_int n)) = dec_int n"
proof -
  have le: "(of_int k :: rat) \<le> 9007199254740992" if "k \<le> 2 ^ 53" for k :: int
  proof -
    have "(of_int k :: rat) \<le> of_int (2 ^ 53)" using that by (simp only: of_int_le_iff)
    then show ?thesis by simp
  qed
  consider "n = 0" | "0 < n" | "n < 0" by linarith
  then show ?thesis
  proof cases
    case 1
    then show ?thesis by (simp add: dec_int_def dec_nat_0)
  next
    case 2
    then show ?thesis using le[of n] assms by (simp add: dec_int_def pos_toString_def)
  next
    case 3
    then have "(of_int n :: rat) < 0" by simp
    moreover have "- (of_int n :: rat) = of_int (- n)" by simp
    ultimately show ?thesis using 3 le[of "- n"] assms
      by (simp add: dec_int_def pos_toString_def del: of_int_minus)
  qed
qed

lemma js_add_int:
  assumes "\<bar>a + b\<bar> \<le> 2 ^ 53"
  shows "js_add (Fin (of_int a)) (Fin (of_int b)) = Fin (of_int (a + b))"
  using fround_of_int[OF assms] by simp

lemma Math_round_int: "Math_round (Fin (of_int n)) = Fin (of_int n)"
proof -
  have "\<lfloor>(of_int n :: rat) + 1 / 2\<rfloor> = n" by (rule floor_unique) simp_all
  then show ?thesis by simp
qed

lemma Math_round_numeral [simp]: "Math_round (Fin (numeral k)) = Fin (numeral k)"
  using Math_round_int[of "numeral k"] by simp

section \<open>Running the engine in the example worlds\<close>

lemma demo_tokens:
  "getCommonIntermediateTokens demo_manager = [''0x2::test_usdc::TEST_USDC'']"
  by (simp add: getCommonIntermediateTokens_def demo_manager_def)

lemma parse_quote_response:
  "out = ''90'' \<or> out = ''80'' \<Longrightarrow>
   parseContractQuoteResult (quote_response out ''1'') tIn tOut (JStr aIn)
     = Inr (hop_quote tIn tOut aIn out ''1'')"
  by (auto simp: parse_eval str_eval hop_quote_def)

lemma demo_first_hop:
  "getContractQuote demo_gateway ''A'' ''0x2::test_usdc::TEST_USDC'' (JStr ''100'') n
     = (Inr (hop_quote ''A'' ''0x2::test_usdc::TEST_USDC'' ''100'' ''90'' ''1''), Suc n)"
  by (simp add: getContractQuote_def demo_gateway_def parse_quote_response)

lemma demo_second_hop:
  "getContractQuote demo_gateway ''0x2::test_usdc::TEST_USDC'' ''B'' (JStr ''90'') n
     = (Inr (hop_quote ''0x2::test_usdc::TEST_USDC'' ''B'' ''90'' ''80'' ''1''), Suc n)"
  by (simp add: getContractQuote_def demo_gateway_def parse_quote_response)

lemma demo_direct:
  "getContractQuote demo_gateway ''A'' ''B'' (JStr ''100'') n
     = (Inl (Error ''Contract quote failed: '' (TransportError ''unreachable'')), Suc n)"
  by (simp add: getContractQuote_def demo_gateway_def)

lemma hop_quote_ok:
  "out = ''90'' \<or> out = ''80'' \<Longrightarrow> invalid_or_zero (hop_quote tIn tOut aIn out fee) = Some False"
  by (auto simp: invalid_or_zero_def hop_quote_def js_parseInt_def str_eval)

lemma demo_combine:
  "combineHops demo_params (hop_quote ''A'' ''0x2::test_usdc::TEST_USDC'' ''100'' ''90'' ''1'')
     (hop_quote ''0x2::test_usdc::TEST_USDC'' ''B'' ''90'' ''80'' ''1'')
     ''0x2::test_usdc::TEST_USDC'' = Some demo_combined"
proof -
  have p: "js_parseInt (JStr ''1'') = Some (Fin 1)"
    "js_parseInt (JStr ''150000'') = Some (Fin 150000)" "parseFloat_str ''0'' = Fin 0"
    by (simp_all add: js_parseInt_def str_eval)
  have s: "pos_toString 2 = ''2''" "pos_toString 300000 = ''300000''"
    by (simp_all add: str_eval)
  show ?thesis
    by (simp add: combineHops_def hop_quote_def demo_combined_def demo_params_def p s
        Math_max_def Let_def)
qed

lemma demo_single_hops:
  "getSingleHopQuotes demo_gateway demo_manager demo_params n = (Inr [demo_combined], n + 2)"
  by (simp add: getSingleHopQuotes_def demo_tokens demo_first_hop demo_second_hop
      hop_quote_ok demo_combine sort_routes_def
      demo_params_def[THEN arg_cong[of _ _ tokenIn], simplified]
      demo_params_def[THEN arg_cong[of _ _ tokenOut], simplified]
      demo_params_def[THEN arg_cong[of _ _ params_amountIn], simplified]
      hop_quote_def[THEN arg_cong[of _ _ amountOut], simplified])

subsection \<open>An unreachable gateway\<close>

lemma unreachable_contract:
  assumes "unreachable gw"
  shows "\<exists>e g'. getContractQuote gw a b x g = (Inl e, g')"
proof -
  obtain e where "fst (gw a b x g) = Inl e" using assms unfolding unreachable_def by blast
  then show ?thesis by (cases "gw a b x g") (simp add: getContractQuote_def)
qed

lemma unreachable_loop:
  assumes "unreachable gw"
  shows "\<exists>g'. singleHopLoop gw params tokens routes g = (routes, g')"
proof (induction tokens arbitrary: g)
  case Nil
  then show ?case by simp
next
  case (Cons t ts)
  obtain e g1 where c: "getContractQuote gw (tokenIn params) t (JStr (params_amountIn params)) g = (Inl e, g1)"
    using unreachable_contract[OF assms] by blast
  show ?case using Cons[of g] Cons[of g1] c by simp
qed

lemma sort_routes_Nil: "sort_routes [] = Some []"
  by (simp add: sort_routes_def)

lemma unreachable_multi:
  assumes "unreachable gw"
  shows "\<exists>g'. getMultiRouteQuotes gw m params maxHops g
           = (Inr \<lparr> directRoute = None, singleHopRoutes = [], multiHopRoutes = [],
                    bestRoute = createEmptyQuote \<rparr>, g')"
proof -
  obtain e g1 where d: "getContractQuote gw (tokenIn params) (tokenOut params)
      (JStr (params_amountIn params)) g = (Inl e, g1)"
    using unreachable_contract[OF assms] by blast
  obtain g2 where l: "singleHopLoop gw params (getCommonIntermediateTokens m) [] g1 = ([], g2)"
    using unreachable_loop[OF assms] by blast
  show ?thesis
    by (cases "js_ge maxHops (Fin 2)")
       (simp_all add: getMultiRouteQuotes_def d getSingleHopQuotes_def l sort_routes_Nil)
qed

lemma select_no_routes:
  "selectBestRoute \<lparr> directRoute = None, singleHopRoutes = [], multiHopRoutes = [],
                     bestRoute = b \<rparr> = Some createEmptyQuote"
  by (simp add: selectBestRoute_def candidateRoutes_def)

lemma enhance_empty:
  "enhanceQuote createEmptyQuote s incl
     = createEmptyQuote \<lparr> slippageTolerance := Math_max s (Fin 50) \<rparr>"
proof -
  have "parseFloat_str ''0'' = Fin 0" by (simp add: str_eval)
  then show ?thesis
    by (simp add: enhanceQuote_def calculateOptimalSlippage_def createEmptyQuote_def js_gt_def
        Let_def del: Math_round.simps)
qed

lemma unreachable_best:
  assumes "unreachable gw" "getCachedQuote m t1 (getCacheKey params) = None"
  shows "\<exists>g'. getBestQuote gw m params options t1 t2 g
           = (Inr (createEmptyQuote \<lparr> slippageTolerance :=
                     Math_max (case opt_slippageTolerance options of None \<Rightarrow> Fin 50 | Some s \<Rightarrow> s)
                       (Fin 50) \<rparr>),
              cacheQuote m t2 (getCacheKey params)
                (createEmptyQuote \<lparr> slippageTolerance :=
                     Math_max (case opt_slippageTolerance options of None \<Rightarrow> Fin 50 | Some s \<Rightarrow> s)
                       (Fin 50) \<rparr>), g')"
proof -
  obtain g' where "getMultiRouteQuotes gw m params
      (case opt_maxHops options of None \<Rightarrow> Fin 3 | Some h \<Rightarrow> h) g
    = (Inr \<lparr> directRoute = None, singleHopRoutes = [], multiHopRoutes = [],
             bestRoute = createEmptyQuote \<rparr>, g')"
    using unreachable_multi[OF assms(1)] by blast
  then show ?thesis
    by (simp add: getBestQuote_def assms(2) select_no_routes enhance_empty Let_def)
qed

lemma down_unreachable: "unreachable down_gateway"
  by (simp add: unreachable_def down_gateway_def)

lemma demo_key: "getCacheKey demo_params = ''A-B-100''"
  by (simp add: getCacheKey_def demo_params_def)

lemma down_best:
  "getBestQuote down_gateway demo_manager demo_params default_options t1 t2 0
     = (Inr createEmptyQuote, cacheQuote demo_manager t2 ''A-B-100'' createEmptyQuote, 2)"
proof -
  have t: "tokenIn demo_params = ''A''" "tokenOut demo_params = ''B''"
    "params_amountIn demo_params = ''100''"
    by (simp_all add: demo_params_def)
  have c: "getContractQuote down_gateway a b x n
      = (Inl (Error ''Contract quote failed: '' (TransportError ''unreachable'')), Suc n)" for a b x n
    by (simp add: getContractQuote_def down_gateway_def)
  have m: "getMultiRouteQuotes down_gateway demo_manager demo_params (Fin 3) 0
    = (Inr \<lparr> directRoute = None, singleHopRoutes = [], multiHopRoutes = [],
             bestRoute = createEmptyQuote \<rparr>, 2)"
    by (simp add: getMultiRouteQuotes_def getSingleHopQuotes_def demo_tokens t c js_ge_def
        sort_routes_Nil)
  have e: "createEmptyQuote \<lparr> slippageTolerance := Fin 50 \<rparr> = createEmptyQuote"
    by (simp add: createEmptyQuote_def)
  show ?thesis
    by (simp add: getBestQuote_def default_options_def demo_key getCachedQuote_def
        demo_manager_def[THEN arg_cong[of _ _ quoteCache], simplified]
        m select_no_routes enhance_empty Math_max_def e)
qed

subsection \<open>What the engine can raise\<close>

text \<open>
  Every gateway call sits inside a \<^verbatim>\<open>try\<close> block whose \<^verbatim>\<open>catch\<close> does not rethrow, so the
  errors that leave \<^verbatim>\<open>getSingleHopQuotes\<close>, \<^verbatim>\<open>getMultiRouteQuotes\<close> and \<^verbatim>\<open>getBestQuote\<close>
  are type errors of the ranking code, wrapped by the outer handlers.
\<close>

lemma getSingleHopQuotes_errors:
  assumes "getSingleHopQuotes gw m params g = (Inl e, g')"
  shows "e = TypeError"
  using assms by (auto simp: getSingleHopQuotes_def split: prod.splits option.splits)

lemma getMultiRouteQuotes_errors:
  assumes "getMultiRouteQuotes gw m params maxHops g = (Inl e, g')"
  shows "e = Error ''Multi-route quote failed: '' TypeError"
proof (cases "js_ge maxHops (Fin 2)")
  case True
  show ?thesis
  proof (cases "getSingleHopQuotes gw m params
                  (snd (getContractQuote gw (tokenIn params) (tokenOut params)
                          (JStr (params_amountIn params)) g))")
    case (Pair r g2)
    show ?thesis
    proof (cases r)
      case (Inl x)
      with Pair have "x = TypeError" using getSingleHopQuotes_errors by metis
      with assms Pair Inl True show ?thesis
        by (auto simp: getMultiRouteQuotes_def Let_def split: prod.splits sum.splits)
    next
      case (Inr rs)
      with assms Pair True show ?thesis
        by (auto simp: getMultiRouteQuotes_def Let_def
                 split: prod.splits sum.splits option.splits if_splits)
    qed
  qed
next
  case False
  with assms show ?thesis
    by (auto simp: getMultiRouteQuotes_def Let_def
             split: prod.splits sum.splits option.splits if_splits)
qed

lemma getBestQuote_errors:
  assumes "getBestQuote gw m params options t1 t2 g = (Inl e, m', g')"
  shows "e = Error ''Failed to get quote: '' TypeError
         \<or> e = Error ''Failed to get quote: '' (Error ''Multi-route quote failed: '' TypeError)"
proof (cases "getCachedQuote m t1 (getCacheKey params)")
  case (Some c)
  with assms show ?thesis by (simp add: getBestQuote_def Let_def)
next
  case None
  show ?thesis
  proof (cases "getMultiRouteQuotes gw m params
                  (case opt_maxHops options of None \<Rightarrow> Fin 3 | Some h \<Rightarrow> h) g")
    case (Pair r g1)
    show ?thesis
    proof (cases r)
      case (Inl x)
      with Pair have "x = Error ''Multi-route quote failed: '' TypeError"
        using getMultiRouteQuotes_errors by metis
      with assms None Pair Inl show ?thesis by (simp add: getBestQuote_def Let_def)
    next
      case (Inr mr)
      with assms None Pair show ?thesis
        by (auto simp: getBestQuote_def Let_def split: option.splits)
    qed
  qed
qed

subsection \<open>A failing direct quote\<close>

text \<open>
  There is one intermediate token, so the loop collects at most one two-hop route, and a
  list of at most one route is neither compared by \<^verbatim>\<open>sort\<close> nor scored by \<^verbatim>\<open>reduce\<close>. When
  the direct quote fails, nothing else is a candidate, and no step of \<^verbatim>\<open>getBestQuote\<close> can
  raise.
\<close>

lemma singleHopLoop_length:
  "length (fst (singleHopLoop gw params tokens routes g)) \<le> length routes + length tokens"
proof (induction tokens arbitrary: routes g)
  case Nil
  then show ?case by simp
next
  case (Cons t ts)
  have a: "length (fst (singleHopLoop gw params ts routes g1)) \<le> Suc (length routes + length ts)"
    for g1 using Cons[of routes g1] by simp
  have b: "length (fst (singleHopLoop gw params ts (routes @ [c]) g1))
             \<le> Suc (length routes + length ts)"
    for c g1 using Cons[of "routes @ [c]" g1] by simp
  show ?case
    by (simp add: a b split: prod.splits sum.splits option.splits bool.splits)
qed

lemma sort_routes_short: "length rs \<le> 1 \<Longrightarrow> sort_routes rs = Some rs"
  by (simp add: sort_routes_def)

lemma getSingleHopQuotes_returns:
  "\<exists>rs g'. getSingleHopQuotes gw m params g = (Inr rs, g') \<and> length rs \<le> 1"
proof -
  obtain rs g' where l: "singleHopLoop gw params (getCommonIntermediateTokens m) [] g = (rs, g')"
    by (cases "singleHopLoop gw params (getCommonIntermediateTokens m) [] g")
  have "length rs \<le> 1"
    using singleHopLoop_length[of gw params "getCommonIntermediateTokens m" "[]" g] l
    by (simp add: getCommonIntermediateTokens_def)
  then show ?thesis
    by (simp add: getSingleHopQuotes_def l sort_routes_short)
qed

lemma reduce_best_single: "length rs \<le> 1 \<Longrightarrow> \<exists>b. selectBestRoute
   \<lparr> directRoute = None, singleHopRoutes = rs, multiHopRoutes = [], bestRoute = e \<rparr> = Some b"
  by (cases rs) (auto simp: selectBestRoute_def candidateRoutes_def)

lemma direct_failure_multi:
  assumes "fst (gw (tokenIn params) (tokenOut params) (JStr (params_amountIn params)) g) = Inl err"
  shows "\<exists>rs b g'. getMultiRouteQuotes gw m params maxHops g
           = (Inr \<lparr> directRoute = None, singleHopRoutes = rs, multiHopRoutes = [],
                    bestRoute = b \<rparr>, g') \<and> length rs \<le> 1"
proof -
  obtain g1 where d: "getContractQuote gw (tokenIn params) (tokenOut params)
      (JStr (params_amountIn params)) g = (Inl (Error ''Contract quote failed: '' err), g1)"
    using assms
    by (cases "gw (tokenIn params) (tokenOut params) (JStr (params_amountIn params)) g")
       (simp add: getContractQuote_def)
  obtain rs g2 where s: "getSingleHopQuotes gw m params g1 = (Inr rs, g2)" "length rs \<le> 1"
    using getSingleHopQuotes_returns[of gw m params g1] by blast
  obtain b where b: "selectBestRoute \<lparr> directRoute = None, singleHopRoutes = rs,
      multiHopRoutes = [], bestRoute = createEmptyQuote \<rparr> = Some b"
    using reduce_best_single[OF s(2), of createEmptyQuote] by blast
  show ?thesis
  proof (cases "js_ge maxHops (Fin 2)")
    case True
    then show ?thesis using s(2)
      by (cases "rs = []") (simp_all add: getMultiRouteQuotes_def d s(1) b Let_def)
  next
    case False
    then show ?thesis
      by (simp add: getMultiRouteQuotes_def d Let_def)
  qed
qed

lemma direct_failure_best:
  assumes "fst (gw (tokenIn params) (tokenOut params) (JStr (params_amountIn params)) g) = Inl err"
    and "getCachedQuote m t1 (getCacheKey params) = None"
  shows "\<exists>q g'. getBestQuote gw m params options t1 t2 g
           = (Inr q, cacheQuote m t2 (getCacheKey params) q, g')"
proof -
  obtain rs b g' where mr: "getMultiRouteQuotes gw m params
      (case opt_maxHops options of None \<Rightarrow> Fin 3 | Some h \<Rightarrow> h) g
    = (Inr \<lparr> directRoute = None, singleHopRoutes = rs, multiHopRoutes = [],
             bestRoute = b \<rparr>, g')" and len: "length rs \<le> 1"
    using direct_failure_multi[of gw params g err m
        "case opt_maxHops options of None \<Rightarrow> Fin 3 | Some h \<Rightarrow> h"] assms(1) by blast
  obtain q where q: "selectBestRoute \<lparr> directRoute = None, singleHopRoutes = rs,
      multiHopRoutes = [], bestRoute = b \<rparr> = Some q"
    using reduce_best_single[OF len, of b] by blast
  show ?thesis
    by (simp add: getBestQuote_def assms(2) mr q Let_def)
qed

section \<open>Rounding: idempotence, integers and the relative error\<close>

lemma pow2_nonneg [simp]: "0 \<le> pow2 e"
  by (rule less_imp_le) (rule pow2_pos)

lemma round_half_even_abs_le:
  assumes "\<bar>q\<bar> \<le> of_int k"
  shows "\<bar>round_half_even q\<bar> \<le> k"
proof -
  have "round_half_even q \<le> round_half_even (of_int k)"
    by (rule round_half_even_mono) (use assms in linarith)
  moreover have "(of_int (- k) :: rat) \<le> q" using assms by simp
  then have "round_half_even (of_int (- k)) \<le> round_half_even q"
    by (rule round_half_even_mono)
  ultimately show ?thesis by (simp only: round_half_even_of_int abs_le_iff) simp
qed

lemma scaled_abs_le: "\<bar>x / pow2 (fexp x)\<bar> \<le> 2 ^ 53"
proof -
  have u: "0 < pow2 (fexp x)" by (rule pow2_pos)
  consider "x = 0" | "0 < x" | "x < 0" by linarith
  then show ?thesis
  proof cases
    case 1
    then show ?thesis by simp
  next
    case 2
    then have "0 \<le> x / pow2 (fexp x)" by (simp add: zero_le_divide_iff)
    then show ?thesis using scaled_upper[OF 2] by linarith
  next
    case 3
    then have p: "0 < - x" by simp
    have "- x / pow2 (fexp x) < 2 ^ 53" using scaled_upper[OF p] by (simp only: fexp_minus)
    then have "- (x / pow2 (fexp x)) < 2 ^ 53" by (simp only: minus_divide_left)
    moreover have "x / pow2 (fexp x) \<le> 0" using 3 by (simp add: divide_le_0_iff)
    ultimately show ?thesis by linarith
  qed
qed

lemma fexp_ge: "- 1074 \<le> fexp x"
  by (simp add: fexp_def)

lemma rnd_idem: "rnd (rnd x) = rnd x"
proof (cases "x = 0")
  case True
  then show ?thesis by simp
next
  case False
  have "\<bar>x / pow2 (fexp x)\<bar> \<le> of_int (2 ^ 53)" using scaled_abs_le[of x] by simp
  then have "\<bar>round_half_even (x / pow2 (fexp x))\<bar> \<le> 2 ^ 53"
    by (rule round_half_even_abs_le)
  from rnd_repr[OF this fexp_ge[of x]] show ?thesis using False by (simp add: rnd_def)
qed

lemma fround_Fin: "fround x = Fin a \<Longrightarrow> a = rnd x \<and> \<bar>rnd x\<bar> < pow2 1024"
  by (auto simp: fround_def Let_def split: if_splits)

lemma fround_finite: "\<bar>rnd x\<bar> < pow2 1024 \<Longrightarrow> fround x = Fin (rnd x)"
  by (auto simp: fround_def Let_def)

lemma fround_idem:
  assumes "fround x = Fin a"
  shows "fround a = Fin a"
proof -
  have a: "a = rnd x" and b: "\<bar>rnd x\<bar> < pow2 1024" using fround_Fin[OF assms] by simp_all
  have "\<bar>rnd (rnd x)\<bar> < pow2 1024" using b by (simp only: rnd_idem)
  then have "fround (rnd x) = Fin (rnd (rnd x))" by (rule fround_finite)
  then show ?thesis by (simp only: rnd_idem a)
qed

lemma rnd_of_int_integer: "\<exists>k. rnd (of_int n) = of_int k"
proof (cases "0 \<le> fexp (of_int n :: rat)")
  case True
  then obtain d where d: "fexp (of_int n :: rat) = int d" using nonneg_int_cases by blast
  show ?thesis
  proof (cases "n = 0")
    case True
    then show ?thesis by (intro exI[of _ 0]) simp
  next
    case False
    then show ?thesis
      by (intro exI[of _ "round_half_even (of_int n / pow2 (int d)) * 2 ^ d"])
         (simp add: rnd_def d pow2_nat)
  qed
next
  case False
  then obtain d where d: "fexp (of_int n :: rat) = - int d"
    by (metis neg_int_cases not_le add.inverse_inverse linorder_not_less nonneg_int_cases
        less_imp_le)
  have "pow2 (- int d) * 2 ^ d = pow2 (- int d) * pow2 (int d)" by (simp add: pow2_nat)
  also have "\<dots> = 1" by (simp add: pow2_def flip: pow2_add)
  finally have "(of_int n :: rat) / pow2 (- int d) = of_int (n * 2 ^ d)"
    by (simp add: field_simps)
  then have "rnd (of_int n) = of_int n" unfolding d[symmetric] by (rule rnd_exact)
  then show ?thesis by blast
qed

text \<open>In the normal range rounding changes a positive number by at most the factor \<open>1 + 2^-53\<close>.\<close>

lemma rnd_rel_upper:
  assumes "0 < y" "- 1022 \<le> ilog2 y"
  shows "rnd y \<le> y * (1 + 1 / 2 ^ 53)"
proof -
  define u where "u = pow2 (fexp y)"
  have u: "0 < u" by (simp add: u_def)
  have e: "fexp y = ilog2 y - 52" using assms by (simp add: fexp_pos)
  have "u * 2 ^ 52 = pow2 (fexp y) * pow2 52" by (simp add: u_def pow2_def)
  also have "\<dots> = pow2 (ilog2 y)" by (simp add: e flip: pow2_add)
  also have "\<dots> \<le> y" by (rule ilog2_bounds(1)[OF assms(1)])
  finally have ub: "u \<le> y / 2 ^ 52" by (simp add: pos_le_divide_eq)
  have "of_int (round_half_even (y / u)) \<le> y / u + 1 / 2" by (rule round_half_even_bounds(1))
  then have "of_int (round_half_even (y / u)) * u \<le> (y / u + 1 / 2) * u"
    using u by (intro mult_right_mono) simp_all
  also have "\<dots> = y + u / 2" using u by (simp add: field_simps)
  also have "\<dots> \<le> y + y / 2 ^ 52 / 2" using ub by simp
  also have "\<dots> = y * (1 + 1 / 2 ^ 53)" by (simp add: field_simps)
  finally show ?thesis using assms(1) by (simp add: rnd_def u_def)
qed

lemma rnd_1 [simp]: "rnd 1 = 1"
  using rnd_repr[of 1 0] by (simp add: pow2_def)

lemma rnd_less_of_factor:
  assumes "1 \<le> a" "y \<le> a * c" "0 \<le> c" "c * (1 + 1 / 2 ^ 53) < 1"
  shows "rnd y < a"
proof (cases "0 < y \<and> - 1022 \<le> ilog2 y")
  case True
  then have "rnd y \<le> y * (1 + 1 / 2 ^ 53)" using rnd_rel_upper by blast
  also have "\<dots> \<le> a * c * (1 + 1 / 2 ^ 53)" using assms(2) by (intro mult_right_mono) simp_all
  also have "\<dots> = a * (c * (1 + 1 / 2 ^ 53))" by simp
  also have "\<dots> < a * 1" using assms(1,4) by (intro mult_strict_left_mono) simp_all
  finally show ?thesis by simp
next
  case False
  have "y < 1"
  proof (cases "0 < y")
    case True
    then have "ilog2 y < - 1022" using False by simp
    then have "ilog2 y + 1 \<le> 0" by simp
    then have "pow2 (ilog2 y + 1) \<le> pow2 0" by (rule pow2_mono)
    then show ?thesis using ilog2_bounds(2)[OF True] by (simp add: pow2_def)
  next
    case False
    then show ?thesis by simp
  qed
  then have "y \<le> 1" by simp
  then have "rnd y \<le> rnd 1" by (rule rnd_mono)
  moreover have "rnd y \<noteq> 1 \<or> rnd y < a"
  proof (cases "0 < y")
    case True
    then have il: "ilog2 y < - 1022" using False by simp
    have "rnd y \<le> pow2 (fexp y + 53)" by (rule rnd_upper[OF True])
    also have "fexp y + 53 = - 1021" using il True by (simp add: fexp_pos)
    also have "pow2 (- 1021) < pow2 0" by (rule pow2_strict_mono) simp
    finally show ?thesis by (simp add: pow2_def)
  next
    case False
    then have "rnd y \<le> 0" by (intro rnd_nonpos) simp
    then show ?thesis by simp
  qed
  ultimately show ?thesis using assms(1) by (cases "rnd y = 1") auto
qed

section \<open>Decimal numerals\<close>

lemma digit_char_props:
  assumes "d < 10"
  shows "is_digit (digit_char d)" "digit_val (digit_char d) = d" "\<not> is_ws (digit_char d)"
    "digit_char d \<noteq> CHR ''-''" "digit_char d \<noteq> CHR ''+''" "digit_char d \<noteq> CHR ''x''"
    "digit_char d \<noteq> CHR ''X''" "digit_char d \<noteq> CHR ''I''"
proof -
  have "d \<in> {0, 1, 2, 3, 4, 5, 6, 7, 8, 9}" using assms by auto
  then show "is_digit (digit_char d)" "digit_val (digit_char d) = d" "\<not> is_ws (digit_char d)"
    "digit_char d \<noteq> CHR ''-''" "digit_char d \<noteq> CHR ''+''" "digit_char d \<noteq> CHR ''x''"
    "digit_char d \<noteq> CHR ''X''" "digit_char d \<noteq> CHR ''I''"
    by (auto simp: digit_char_def is_digit_def digit_val_def is_ws_def)
qed

lemma is_digit_other:
  assumes "is_digit c"
  shows "\<not> is_ws c" "c \<noteq> CHR ''-''" "c \<noteq> CHR ''+''" "c \<noteq> CHR ''x''" "c \<noteq> CHR ''X''"
    "c \<noteq> CHR ''I''" "c \<noteq> CHR ''.''" "c \<noteq> CHR ''e''" "c \<noteq> CHR ''E''"
  using assms by (auto simp: is_digit_def is_ws_def)

lemma dec_nat_digits: "c \<in> set (dec_nat n) \<Longrightarrow> is_digit c"
proof (induction n arbitrary: c rule: dec_nat.induct)
  case (1 n)
  show ?case
  proof (cases "n < 10")
    case True
    then show ?thesis using 1(2) by (simp add: dec_nat.simps[of n] digit_char_props)
  next
    case False
    then show ?thesis using 1(1)[OF False] 1(2)
      by (auto simp: dec_nat.simps[of n] digit_char_props)
  qed
qed

lemma dec_nat_nonempty: "dec_nat n \<noteq> []"
  by (simp add: dec_nat.simps[of n])

lemma digits_value_snoc:
  "digits_value r (ds @ [c]) = digits_value r ds * r + digit_val c"
  by (simp add: digits_value_def)

lemma digits_value_dec_nat: "digits_value 10 (dec_nat n) = n"
proof (induction n rule: dec_nat.induct)
  case (1 n)
  show ?case
  proof (cases "n < 10")
    case True
    then show ?thesis by (simp add: dec_nat.simps[of n] digits_value_def digit_char_props)
  next
    case False
    then show ?thesis using 1[OF False]
      by (simp add: dec_nat.simps[of n] digits_value_snoc digit_char_props)
  qed
qed

lemma takeWhile_digits: "(\<And>c. c \<in> set ds \<Longrightarrow> is_digit c) \<Longrightarrow> takeWhile is_digit ds = ds"
  by (simp add: takeWhile_eq_all_conv)

lemma digits_no_prefix:
  assumes "\<And>c. c \<in> set ds \<Longrightarrow> is_digit c" "ds \<noteq> []"
  shows "dropWhile is_ws ds = ds" "\<not> starts_with ''-'' ds" "\<not> starts_with ''+'' ds"
    "\<not> starts_with ''0x'' ds" "\<not> starts_with ''0X'' ds" "\<not> starts_with ''Infinity'' ds"
proof -
  obtain c cs where ds: "ds = c # cs" using assms(2) by (cases ds) auto
  have c: "is_digit c" using assms(1) ds by simp
  show "dropWhile is_ws ds = ds" using is_digit_other[OF c] by (simp add: ds)
  show "\<not> starts_with ''-'' ds" "\<not> starts_with ''+'' ds" "\<not> starts_with ''Infinity'' ds"
    using is_digit_other[OF c] by (auto simp: ds starts_with_def)
  show "\<not> starts_with ''0x'' ds" "\<not> starts_with ''0X'' ds"
  proof -
    have "is_digit d" if "cs = d # es" for d es using assms(1) ds that by simp
    then show "\<not> starts_with ''0x'' ds" "\<not> starts_with ''0X'' ds"
      using is_digit_other by (cases cs; auto simp: ds starts_with_def)+
  qed
qed

lemma parseInt_digits:
  assumes "\<And>c. c \<in> set ds \<Longrightarrow> is_digit c" "ds \<noteq> []"
  shows "parseInt_str ds = fround (of_nat (digits_value 10 ds))"
    and "parseInt_str (CHR ''-'' # ds) = fround (- of_nat (digits_value 10 ds))"
proof -
  show "parseInt_str ds = fround (of_nat (digits_value 10 ds))"
    using assms(2) by (simp add: parseInt_str_def Let_def digits_no_prefix[OF assms]
        takeWhile_digits[OF assms(1)])
  have m: "\<not> is_ws CHR ''-''" by (simp add: is_ws_def)
  have b: "starts_with ''-'' (CHR ''-'' # ds)" by (simp add: starts_with_def)
  show "parseInt_str (CHR ''-'' # ds) = fround (- of_nat (digits_value 10 ds))"
    using assms(2)
    by (simp add: parseInt_str_def Let_def m b digits_no_prefix[OF assms]
        takeWhile_digits[OF assms(1)])
qed

lemma parseInt_dec_int: "parseInt_str (dec_int n) = fround (of_int n)"
proof (cases "n < 0")
  case True
  have "parseInt_str (CHR ''-'' # dec_nat (nat (- n))) = fround (- of_nat (nat (- n)))"
    using parseInt_digits(2)[of "dec_nat (nat (- n))"] dec_nat_digits dec_nat_nonempty
    by (simp add: digits_value_dec_nat)
  moreover have "- (of_nat (nat (- n)) :: rat) = of_int n" using True by simp
  ultimately show ?thesis using True by (simp add: dec_int_def)
next
  case False
  have "parseInt_str (dec_nat (nat n)) = fround (of_nat (nat n))"
    using parseInt_digits(1)[of "dec_nat (nat n)"] dec_nat_digits dec_nat_nonempty
    by (simp add: digits_value_dec_nat)
  moreover have "(of_nat (nat n) :: rat) = of_int n" using False by simp
  ultimately show ?thesis using False by (simp add: dec_int_def)
qed

lemma parseInt_dec_int_exact:
  assumes "\<bar>n\<bar> \<le> 2 ^ 53"
  shows "js_parseInt (JStr (dec_int n)) = Some (Fin (of_int n))"
  by (simp add: js_parseInt_def parseInt_dec_int fround_of_int[OF assms])
section \<open>Composing two hops\<close>

lemma combineHops_Some:
  assumes "js_parseInt (feeAmount firstHop) = Some f1"
    and "js_parseInt (feeAmount secondHop) = Some f2"
    and "js_parseInt (gasEstimate firstHop) = Some g1"
    and "js_parseInt (gasEstimate secondHop) = Some g2"
  shows "combineHops params firstHop secondHop intermediate =
    Some \<lparr> amountOut = amountOut secondHop,
           amountIn = JStr (params_amountIn params),
           priceImpact = num_toString (js_add (parseFloat_str (priceImpact firstHop))
                                              (parseFloat_str (priceImpact secondHop))),
           feeAmount = JStr (num_toString (js_add f1 f2)),
           gasEstimate = JStr (num_toString (js_add g1 g2)),
           poolId = [],
           route = \<lparr> hops = hops (route firstHop) @ hops (route secondHop),
                     totalFee = JStr (num_toString (js_add f1 f2)),
                     estimatedGas = JStr (num_toString (js_add g1 g2)),
                     route_priceImpact =
                       num_toString (js_add (parseFloat_str (priceImpact firstHop))
                                            (parseFloat_str (priceImpact secondHop))),
                     routeType = MultiHop \<rparr>,
           isValid = True,
           slippageTolerance =
             Math_max (slippageTolerance firstHop) (slippageTolerance secondHop) \<rparr>"
  using assms by (simp add: combineHops_def Let_def del: js_add.simps)

lemma combineHops_None:
  "combineHops params firstHop secondHop intermediate = None \<longleftrightarrow>
     js_parseInt (feeAmount firstHop) = None \<or> js_parseInt (feeAmount secondHop) = None
     \<or> js_parseInt (gasEstimate firstHop) = None \<or> js_parseInt (gasEstimate secondHop) = None"
  by (auto simp: combineHops_def Let_def bind_eq_None_conv simp del: js_add.simps)

lemma numeral_sum:
  assumes "\<bar>a\<bar> \<le> 2 ^ 53" "\<bar>b\<bar> \<le> 2 ^ 53" "\<bar>a + b\<bar> \<le> 2 ^ 53"
    and "js_parseInt (JStr (dec_int a)) = Some x" "js_parseInt (JStr (dec_int b)) = Some y"
  shows "num_toString (js_add x y) = dec_int (a + b)"
proof -
  have "x = Fin (of_int a)" "y = Fin (of_int b)"
    using assms(4,5) parseInt_dec_int_exact[OF assms(1)] parseInt_dec_int_exact[OF assms(2)]
    by simp_all
  then show ?thesis
    using js_add_int[OF assms(3)] num_toString_int[OF assms(3)] by (simp del: js_add.simps)
qed

lemma Math_max_Fin: "Math_max (Fin a) (Fin b) = Fin (max a b)"
  by (simp add: Math_max_def max_def not_less)

text \<open>
  Claim C1, as amended. \<^verbatim>\<open>combineHops\<close> returns a quote unless a fee or a gas estimate of a
  hop cannot be converted to a string. The quote it returns takes its output amount from the
  second hop and its input amount from the request, concatenates the hops of the two routes
  into a route of type multi-hop and is valid; its price impact is the string of the
  double-precision sum of the two parsed price impacts, its fee and its gas estimate are the
  strings of the double-precision sums of the hops' parsed fees and gas estimates, and its
  slippage tolerance is \<^verbatim>\<open>Math.max\<close> of the two tolerances, the larger one when both are
  numbers. Where the two fees (gas estimates) are decimal numerals of integers that lie, with
  their sum, within \<open>\<plusminus>2^53\<close>, the fee (gas estimate) is the decimal numeral of the sum.
\<close>

theorem combineHops_fields:
  "(combineHops params firstHop secondHop intermediate = None \<longleftrightarrow>
      js_parseInt (feeAmount firstHop) = None \<or> js_parseInt (feeAmount secondHop) = None
      \<or> js_parseInt (gasEstimate firstHop) = None \<or> js_parseInt (gasEstimate secondHop) = None)
   \<and> (\<forall>q. combineHops params firstHop secondHop intermediate = Some q \<longrightarrow>
         amountOut q = amountOut secondHop
         \<and> amountIn q = JStr (params_amountIn params)
         \<and> priceImpact q = num_toString (js_add (parseFloat_str (priceImpact firstHop))
                                                   (parseFloat_str (priceImpact secondHop)))
         \<and> hops (route q) = hops (route firstHop) @ hops (route secondHop)
         \<and> routeType (route q) = MultiHop
         \<and> isValid q
         \<and> (\<exists>f1 f2 g1 g2.
               js_parseInt (feeAmount firstHop) = Some f1
               \<and> js_parseInt (feeAmount secondHop) = Some f2
               \<and> js_parseInt (gasEstimate firstHop) = Some g1
               \<and> js_parseInt (gasEstimate secondHop) = Some g2
               \<and> feeAmount q = JStr (num_toString (js_add f1 f2))
               \<and> gasEstimate q = JStr (num_toString (js_add g1 g2)))
         \<and> (\<forall>f1 f2. feeAmount firstHop = JStr (dec_int f1)
                 \<and> feeAmount secondHop = JStr (dec_int f2)
                 \<and> \<bar>f1\<bar> \<le> 2 ^ 53 \<and> \<bar>f2\<bar> \<le> 2 ^ 53 \<and> \<bar>f1 + f2\<bar> \<le> 2 ^ 53
               \<longrightarrow> feeAmount q = JStr (dec_int (f1 + f2)))
         \<and> (\<forall>g1 g2. gasEstimate firstHop = JStr (dec_int g1)
                 \<and> gasEstimate secondHop = JStr (dec_int g2)
                 \<and> \<bar>g1\<bar> \<le> 2 ^ 53 \<and> \<bar>g2\<bar> \<le> 2 ^ 53 \<and> \<bar>g1 + g2\<bar> \<le> 2 ^ 53
               \<longrightarrow> gasEstimate q = JStr (dec_int (g1 + g2)))
         \<and> slippageTolerance q
             = Math_max (slippageTolerance firstHop) (slippageTolerance secondHop)
         \<and> (\<forall>s1 s2. slippageTolerance firstHop = Fin s1
                 \<and> slippageTolerance secondHop = Fin s2
               \<longrightarrow> slippageTolerance q = Fin (max s1 s2)))"
proof (intro conjI allI impI)
  show "combineHops params firstHop secondHop intermediate = None \<longleftrightarrow>
      js_parseInt (feeAmount firstHop) = None \<or> js_parseInt (feeAmount secondHop) = None
      \<or> js_parseInt (gasEstimate firstHop) = None \<or> js_parseInt (gasEstimate secondHop) = None"
    by (rule combineHops_None)
next
  fix q
  assume q: "combineHops params firstHop secondHop intermediate = Some q"
  then obtain f1 f2 g1 g2 where p:
    "js_parseInt (feeAmount firstHop) = Some f1" "js_parseInt (feeAmount secondHop) = Some f2"
    "js_parseInt (gasEstimate firstHop) = Some g1" "js_parseInt (gasEstimate secondHop) = Some g2"
    using combineHops_None[of params firstHop secondHop intermediate] by auto
  have r: "q = \<lparr> amountOut = amountOut secondHop,
           amountIn = JStr (params_amountIn params),
           priceImpact = num_toString (js_add (parseFloat_str (priceImpact firstHop))
                                              (parseFloat_str (priceImpact secondHop))),
           feeAmount = JStr (num_toString (js_add f1 f2)),
           gasEstimate = JStr (num_toString (js_add g1 g2)),
           poolId = [],
           route = \<lparr> hops = hops (route firstHop) @ hops (route secondHop),
                     totalFee = JStr (num_toString (js_add f1 f2)),
                     estimatedGas = JStr (num_toString (js_add g1 g2)),
                     route_priceImpact =
                       num_toString (js_add (parseFloat_str (priceImpact firstHop))
                                            (parseFloat_str (priceImpact secondHop))),
                     routeType = MultiHop \<rparr>,
           isValid = True,
           slippageTolerance =
             Math_max (slippageTolerance firstHop) (slippageTolerance secondHop) \<rparr>"
    using combineHops_Some[OF p, of params intermediate] q by simp
  have fee: "feeAmount q = JStr (num_toString (js_add f1 f2))"
    and gas: "gasEstimate q = JStr (num_toString (js_add g1 g2))"
    and tol: "slippageTolerance q
                = Math_max (slippageTolerance firstHop) (slippageTolerance secondHop)"
    by (simp_all add: r)
  show "amountOut q = amountOut secondHop" by (simp add: r)
  show "amountIn q = JStr (params_amountIn params)" by (simp add: r)
  show "priceImpact q = num_toString (js_add (parseFloat_str (priceImpact firstHop))
                                           (parseFloat_str (priceImpact secondHop)))"
    by (simp add: r)
  show "hops (route q) = hops (route firstHop) @ hops (route secondHop)" by (simp add: r)
  show "routeType (route q) = MultiHop" by (simp add: r)
  show "isValid q" by (simp add: r)
  show "\<exists>f1 f2 g1 g2.
               js_parseInt (feeAmount firstHop) = Some f1
               \<and> js_parseInt (feeAmount secondHop) = Some f2
               \<and> js_parseInt (gasEstimate firstHop) = Some g1
               \<and> js_parseInt (gasEstimate secondHop) = Some g2
               \<and> feeAmount q = JStr (num_toString (js_add f1 f2))
               \<and> gasEstimate q = JStr (num_toString (js_add g1 g2))"
    using p fee gas by blast
  show "slippageTolerance q = Math_max (slippageTolerance firstHop) (slippageTolerance secondHop)"
    by (rule tol)
  show "feeAmount q = JStr (dec_int (a + b))"
    if "feeAmount firstHop = JStr (dec_int a) \<and> feeAmount secondHop = JStr (dec_int b)
        \<and> \<bar>a\<bar> \<le> 2 ^ 53 \<and> \<bar>b\<bar> \<le> 2 ^ 53 \<and> \<bar>a + b\<bar> \<le> 2 ^ 53" for a b
    using that p(1,2) fee numeral_sum[of a b f1 f2] by simp
  show "gasEstimate q = JStr (dec_int (a + b))"
    if "gasEstimate firstHop = JStr (dec_int a) \<and> gasEstimate secondHop = JStr (dec_int b)
        \<and> \<bar>a\<bar> \<le> 2 ^ 53 \<and> \<bar>b\<bar> \<le> 2 ^ 53 \<and> \<bar>a + b\<bar> \<le> 2 ^ 53" for a b
    using that p(3,4) gas numeral_sum[of a b g1 g2] by simp
  show "slippageTolerance q = Fin (max s1 s2)"
    if "slippageTolerance firstHop = Fin s1 \<and> slippageTolerance secondHop = Fin s2" for s1 s2
    using that tol by (simp add: Math_max_Fin)
qed

text \<open>
  The scenario of the specification: \<open>A \<rightarrow> X\<close> quotes 90 for a fee of 1, \<open>X \<rightarrow> B\<close> quotes 80
  for a fee of 1; the composed quote has output 80, fee 2 and two hops.
\<close>

theorem combineHops_fields_witness:
  "feeAmount (hop_quote ''A'' ''X'' ''100'' ''90'' ''1'') = JStr (dec_int 1)
   \<and> feeAmount (hop_quote ''X'' ''B'' ''90'' ''80'' ''1'') = JStr (dec_int 1)
   \<and> gasEstimate (hop_quote ''A'' ''X'' ''100'' ''90'' ''1'') = JStr (dec_int 150000)
   \<and> gasEstimate (hop_quote ''X'' ''B'' ''90'' ''80'' ''1'') = JStr (dec_int 150000)
   \<and> slippageTolerance (hop_quote ''A'' ''X'' ''100'' ''90'' ''1'') = Fin 50
   \<and> slippageTolerance (hop_quote ''X'' ''B'' ''90'' ''80'' ''1'') = Fin 50
   \<and> (\<exists>q. combineHops demo_params (hop_quote ''A'' ''X'' ''100'' ''90'' ''1'')
              (hop_quote ''X'' ''B'' ''90'' ''80'' ''1'') ''X'' = Some q
         \<and> amountOut q = JStr ''80'' \<and> amountIn q = JStr ''100''
         \<and> feeAmount q = JStr ''2'' \<and> gasEstimate q = JStr ''300000''
         \<and> priceImpact q = ''0''
         \<and> length (hops (route q)) = 2 \<and> routeType (route q) = MultiHop \<and> isValid q
         \<and> slippageTolerance q = Fin 50)"
proof -
  let ?h1 = "hop_quote ''A'' ''X'' ''100'' ''90'' ''1''"
  let ?h2 = "hop_quote ''X'' ''B'' ''90'' ''80'' ''1''"
  have d: "dec_int 1 = ''1''" "dec_int 2 = ''2''" "dec_int 150000 = ''150000''"
    "dec_int 300000 = ''300000''"
    by (simp_all add: dec_int_def dec_nat.simps digit_char_def)
  have h: "feeAmount (hop_quote a b c d e) = JStr e"
    "gasEstimate (hop_quote a b c d e) = JStr ''150000''"
    "slippageTolerance (hop_quote a b c d e) = Fin 50" "amountOut (hop_quote a b c d e) = JStr d"
    "priceImpact (hop_quote a b c d e) = ''0''"
    "length (hops (route (hop_quote a b c d e))) = 1" for a b c d e
    by (simp_all add: hop_quote_def)
  have p: "js_parseInt (JStr ''1'') = Some (Fin 1)"
    "js_parseInt (JStr ''150000'') = Some (Fin 150000)"
    by (simp_all add: js_parseInt_def str_eval)
  have z: "num_toString (js_add (parseFloat_str ''0'') (parseFloat_str ''0'')) = ''0''"
    by (simp add: str_eval)
  note t = combineHops_fields[of demo_params ?h1 ?h2 "''X''"]
  from t have "combineHops demo_params ?h1 ?h2 ''X'' \<noteq> None" by (simp add: h p)
  then obtain q where q: "combineHops demo_params ?h1 ?h2 ''X'' = Some q" by blast
  note f = t[THEN conjunct2, rule_format, OF q]
  note f8 = f[THEN conjunct2, THEN conjunct2, THEN conjunct2, THEN conjunct2, THEN conjunct2,
      THEN conjunct2, THEN conjunct2]
  note fe = f8[THEN conjunct1]
  note ga = f8[THEN conjunct2, THEN conjunct1]
  note to = f8[THEN conjunct2, THEN conjunct2, THEN conjunct2]
  have "feeAmount q = JStr (dec_int (1 + 1))"
    using fe[rule_format, of 1 1] by (simp add: h d)
  moreover have "gasEstimate q = JStr (dec_int (150000 + 150000))"
    using ga[rule_format, of 150000 150000] by (simp add: h d)
  moreover have "slippageTolerance q = Fin (max 50 50)"
    using to[rule_format, of 50 50] by (simp add: h)
  moreover have "amountOut q = JStr ''80''" "amountIn q = JStr ''100''" "priceImpact q = ''0''"
    "length (hops (route q)) = 2" "routeType (route q) = MultiHop" "isValid q"
    using f by (simp_all add: h z demo_params_def)
  ultimately show ?thesis using q by (simp add: h d)
qed

text \<open>
  The claim as stated fails beyond \<open>2^53\<close>: the fees \<^verbatim>\<open>"9007199254740993"\<close> and \<^verbatim>\<open>"0"\<close> add up to
  \<^verbatim>\<open>"9007199254740992"\<close>.
\<close>

lemma parseInt_2_53_1: "parseInt_str ''9007199254740993'' = Fin 9007199254740992"
  using fround_eval[of 53 9007199254740993 4503599627370496]
  by (simp add: str_eval pow2_def)

theorem combineHops_fee_counterexample:
  "map_option feeAmount
     (combineHops demo_params (hop_quote ''A'' ''X'' ''100'' ''90'' ''9007199254740993'')
        (hop_quote ''X'' ''B'' ''90'' ''80'' ''0'') ''X'')
   = Some (JStr ''9007199254740992'')"
proof -
  have "parseInt_str ''0'' = Fin 0" by (simp add: str_eval)
  then show ?thesis
    by (simp add: combineHops_def hop_quote_def js_parseInt_def parseInt_2_53_1)
       (simp add: str_eval)
qed

section \<open>Selecting the best route\<close>

lemma js_lt_trans: "js_lt a b \<Longrightarrow> js_lt b c \<Longrightarrow> js_lt a c"
  by (cases a; cases b; cases c) auto

lemma js_le_lt_trans:
  "\<not> js_lt b a \<Longrightarrow> js_lt b c \<Longrightarrow> a \<noteq> NaN \<Longrightarrow> js_lt a c"
  by (cases a; cases b; cases c) auto

lemma js_lt_irrefl [simp]: "\<not> js_lt a a"
  by (cases a) auto

lemma has_score_score:
  "has_score q \<Longrightarrow> calculateRouteScore q = Some (score q) \<and> score q \<noteq> NaN"
  by (auto simp: has_score_def score_def split: option.splits)

text \<open>
  The invariant of the \<^verbatim>\<open>reduce\<close> loop: \<open>best\<close> is the first best entry of the routes seen so
  far.
\<close>

lemma reduce_best_first_best:
  assumes "first_best seen best" and "\<forall>x \<in> set seen. has_score x"
    and "\<forall>x \<in> set rest. has_score x"
  shows "\<exists>r. reduce_best best rest = Some r \<and> first_best (seen @ rest) r"
  using assms
proof (induction rest arbitrary: seen best)
  case Nil
  then show ?case by simp
next
  case (Cons c cs)
  from Cons.prems(1) obtain before after where seen: "seen = before @ best # after"
    and lo: "\<forall>x \<in> set before. js_lt (score x) (score best)"
    and hi: "\<forall>x \<in> set after. \<not> js_lt (score best) (score x)"
    unfolding first_best_def by blast
  have sb: "calculateRouteScore best = Some (score best)" "score best \<noteq> NaN"
    using has_score_score[of best] Cons.prems(2) seen by simp_all
  have sc: "calculateRouteScore c = Some (score c)" "score c \<noteq> NaN"
    using has_score_score[of c] Cons.prems(3) by simp_all
  define best' where "best' = (if js_gt (score c) (score best) then c else best)"
  have step: "reduce_best best (c # cs) = reduce_best best' cs"
    by (simp add: sb sc best'_def)
  have fb: "first_best (seen @ [c]) best'"
  proof (cases "js_gt (score c) (score best)")
    case True
    then have lt: "js_lt (score best) (score c)" by (simp add: js_gt_def)
    have "js_lt (score x) (score c)" if xin: "x \<in> set seen" for x
    proof -
      have xs: "score x \<noteq> NaN" using has_score_score[of x] Cons.prems(2) xin by simp
      consider "x \<in> set before" | "x = best" | "x \<in> set after" using xin seen by auto
      then show ?thesis
      proof cases
        case 1
        then show ?thesis using lo lt js_lt_trans by blast
      next
        case 2
        then show ?thesis using lt by simp
      next
        case 3
        then have "\<not> js_lt (score best) (score x)" using hi by simp
        then show ?thesis using lt xs by (rule js_le_lt_trans)
      qed
    qed
    then show ?thesis
      unfolding first_best_def best'_def using True
      by (intro exI[of _ seen] exI[of _ "[]"]) simp
  next
    case False
    then have "\<not> js_lt (score best) (score c)" by (simp add: js_gt_def)
    then show ?thesis
      unfolding first_best_def best'_def using False seen lo hi
      by (intro exI[of _ before] exI[of _ "after @ [c]"]) auto
  qed
  have hs: "\<forall>x \<in> set (seen @ [c]). has_score x" using Cons.prems(2,3) by simp
  have "\<exists>r. reduce_best best' cs = Some r \<and> first_best ((seen @ [c]) @ cs) r"
    using fb hs Cons.prems(3) by (intro Cons.IH) simp_all
  then show ?case unfolding step by simp
qed

text \<open>
  Claim C2, as amended. Route selection keeps the valid quotes of the direct, single-hop and
  multi-hop lists, in this order. If none is left it returns the canonical empty quote.
  Otherwise, provided that every valid quote has a score (no field parses to \<open>NaN\<close>), it
  returns the first of the valid quotes that has the greatest score
  \<^verbatim>\<open>amountOut - (feeAmount + gasEstimate * 0.001) - priceImpact * 1000\<close>.
\<close>

theorem selectBestRoute_first_maximum:
  assumes "\<forall>c \<in> set (candidateRoutes multiRoute). has_score c"
  shows "candidateRoutes multiRoute
           = filter isValid ((case directRoute multiRoute of None \<Rightarrow> [] | Some d \<Rightarrow> [d])
               @ singleHopRoutes multiRoute @ multiHopRoutes multiRoute)
    \<and> (candidateRoutes multiRoute = [] \<longrightarrow> selectBestRoute multiRoute = Some createEmptyQuote)
    \<and> (candidateRoutes multiRoute \<noteq> [] \<longrightarrow>
          (\<exists>r. selectBestRoute multiRoute = Some r \<and> first_best (candidateRoutes multiRoute) r))"
proof (cases "candidateRoutes multiRoute")
  case Nil
  then show ?thesis by (simp add: selectBestRoute_def) (simp add: candidateRoutes_def)
next
  case (Cons c cs)
  have "first_best [c] c" unfolding first_best_def by (intro exI[of _ "[]"]) simp
  moreover have "\<forall>x \<in> set [c]. has_score x" "\<forall>x \<in> set cs. has_score x"
    using assms Cons by simp_all
  ultimately have "\<exists>r. reduce_best c cs = Some r \<and> first_best ([c] @ cs) r"
    by (rule reduce_best_first_best)
  then show ?thesis using Cons by (simp add: selectBestRoute_def) (simp add: candidateRoutes_def)
qed

text \<open>Scores of plain quotes: the output amount less the fee.\<close>

lemma literal_0001: "fround (1 / 1000) = Fin (1152921504606847 / 1152921504606846976)"
  using fround_eval[of "- 10" "1 / 1000" 4611686018427388] by (simp add: pow2_def)

lemma plain_quote_fields:
  "amountOut (plain_quote n out fee) = JStr out" "feeAmount (plain_quote n out fee) = JStr fee"
  "gasEstimate (plain_quote n out fee) = JStr ''0''" "priceImpact (plain_quote n out fee) = ''0''"
  "isValid (plain_quote n out fee)"
  by (simp_all add: plain_quote_def hop_quote_def)

lemma plain_scores:
  "calculateRouteScore (plain_quote n ''50'' ''0'') = Some (Fin 50)"
  "calculateRouteScore (plain_quote n ''100'' ''0'') = Some (Fin 100)"
  "calculateRouteScore (plain_quote n ''101'' ''1'') = Some (Fin 100)"
  "calculateRouteScore (plain_quote n ''1'' ''abc'') = Some NaN"
  by (simp_all add: calculateRouteScore_def plain_quote_fields js_parseInt_def literal_0001
      js_sub_def Let_def str_eval)

text \<open>
  Three valid quotes scoring 50, 100 and 100 after an invalid one: the first quote scoring 100
  is selected.
\<close>

theorem selectBestRoute_first_maximum_witness:
  "candidateRoutes \<lparr> directRoute = None,
        singleHopRoutes = [createEmptyQuote, plain_quote ''c'' ''50'' ''0'',
                           plain_quote ''a'' ''100'' ''0'', plain_quote ''b'' ''101'' ''1''],
        multiHopRoutes = [], bestRoute = createEmptyQuote \<rparr>
     = [plain_quote ''c'' ''50'' ''0'', plain_quote ''a'' ''100'' ''0'',
        plain_quote ''b'' ''101'' ''1'']
   \<and> has_score (plain_quote ''c'' ''50'' ''0'')
   \<and> has_score (plain_quote ''a'' ''100'' ''0'')
   \<and> has_score (plain_quote ''b'' ''101'' ''1'')
   \<and> selectBestRoute \<lparr> directRoute = None,
        singleHopRoutes = [createEmptyQuote, plain_quote ''c'' ''50'' ''0'',
                           plain_quote ''a'' ''100'' ''0'', plain_quote ''b'' ''101'' ''1''],
        multiHopRoutes = [], bestRoute = createEmptyQuote \<rparr>
     = Some (plain_quote ''a'' ''100'' ''0'')
   \<and> first_best [plain_quote ''c'' ''50'' ''0'', plain_quote ''a'' ''100'' ''0'',
                   plain_quote ''b'' ''101'' ''1''] (plain_quote ''a'' ''100'' ''0'')"
proof -
  let ?mr = "\<lparr> directRoute = None,
        singleHopRoutes = [createEmptyQuote, plain_quote ''c'' ''50'' ''0'',
                           plain_quote ''a'' ''100'' ''0'', plain_quote ''b'' ''101'' ''1''],
        multiHopRoutes = [], bestRoute = createEmptyQuote \<rparr>"
  have cands: "candidateRoutes ?mr = [plain_quote ''c'' ''50'' ''0'',
      plain_quote ''a'' ''100'' ''0'', plain_quote ''b'' ''101'' ''1'']"
    by (simp add: candidateRoutes_def plain_quote_fields) (simp add: createEmptyQuote_def)
  have hs: "has_score (plain_quote ''c'' ''50'' ''0'')" "has_score (plain_quote ''a'' ''100'' ''0'')"
    "has_score (plain_quote ''b'' ''101'' ''1'')"
    by (simp_all add: has_score_def plain_scores)
  have sel: "selectBestRoute ?mr = Some (plain_quote ''a'' ''100'' ''0'')"
    by (simp add: selectBestRoute_def cands plain_scores js_gt_def)
  have "\<forall>c \<in> set (candidateRoutes ?mr). has_score c" by (simp add: cands hs)
  from selectBestRoute_first_maximum[OF this]
  have "\<exists>r. selectBestRoute ?mr = Some r \<and> first_best (candidateRoutes ?mr) r"
    by (simp add: cands)
  then have "first_best (candidateRoutes ?mr) (plain_quote ''a'' ''100'' ''0'')"
    by (simp add: sel)
  then show ?thesis using cands hs sel by simp
qed

text \<open>
  The claim as stated fails: a valid quote whose fee does not parse has the score \<open>NaN\<close>;
  standing first, it is returned although the quote after it scores 100.
\<close>

theorem selectBestRoute_nan_counterexample:
  "isValid (plain_quote ''bad'' ''1'' ''abc'')
   \<and> isValid (plain_quote ''a'' ''100'' ''0'')
   \<and> calculateRouteScore (plain_quote ''bad'' ''1'' ''abc'') = Some NaN
   \<and> calculateRouteScore (plain_quote ''a'' ''100'' ''0'') = Some (Fin 100)
   \<and> js_ge NaN (Fin 100) = False
   \<and> selectBestRoute \<lparr> directRoute = None,
        singleHopRoutes = [plain_quote ''bad'' ''1'' ''abc'', plain_quote ''a'' ''100'' ''0''],
        multiHopRoutes = [], bestRoute = createEmptyQuote \<rparr>
     = Some (plain_quote ''bad'' ''1'' ''abc'')"
  by (simp add: selectBestRoute_def candidateRoutes_def plain_quote_fields plain_scores
      js_gt_def js_ge_def)

section \<open>Transport failures\<close>

text \<open>
  Claim C3, as amended. Whenever the gateway call behind the direct-route quote raises during
  a \<^verbatim>\<open>getBestQuote\<close> invocation (on a cache miss), the failure is caught inside
  \<^verbatim>\<open>getMultiRouteQuotes\<close> and does not reach the caller: \<^verbatim>\<open>getBestQuote\<close> raises nothing, it
  returns a quote and stores it in the cache. When the gateway cannot be reached for any
  request of the invocation, that quote is the canonical empty quote, invalid, with the
  slippage tolerance raised to the larger of the requested one and 50.
\<close>

theorem transport_failure_absorbed:
  assumes "fst (gw (tokenIn params) (tokenOut params) (JStr (params_amountIn params)) g) = Inl err"
    and "getCachedQuote m t1 (getCacheKey params) = None"
  shows "\<exists>q g'. getBestQuote gw m params options t1 t2 g
                 = (Inr q, cacheQuote m t2 (getCacheKey params) q, g')
           \<and> (unreachable gw \<longrightarrow>
                \<not> isValid q
                \<and> q = createEmptyQuote \<lparr> slippageTolerance :=
                      Math_max (case opt_slippageTolerance options of None \<Rightarrow> Fin 50 | Some s \<Rightarrow> s)
                        (Fin 50) \<rparr>)"
proof -
  obtain q g' where r: "getBestQuote gw m params options t1 t2 g
      = (Inr q, cacheQuote m t2 (getCacheKey params) q, g')"
    using direct_failure_best[of gw params g err m t1 options t2] assms by blast
  have "\<not> isValid q \<and> q = createEmptyQuote \<lparr> slippageTolerance :=
      Math_max (case opt_slippageTolerance options of None \<Rightarrow> Fin 50 | Some s \<Rightarrow> s) (Fin 50) \<rparr>"
    if "unreachable gw"
    using unreachable_best[OF that assms(2), of options t2 g] r
    by (auto simp: createEmptyQuote_def)
  with r show ?thesis by blast
qed

theorem transport_failure_absorbed_witness:
  "fst (down_gateway (tokenIn demo_params) (tokenOut demo_params)
          (JStr (params_amountIn demo_params)) 0) = Inl (TransportError ''unreachable'')
   \<and> getCachedQuote demo_manager 0 (getCacheKey demo_params) = None
   \<and> unreachable down_gateway
   \<and> (\<exists>q g'. getBestQuote down_gateway demo_manager demo_params default_options 0 5 0
                 = (Inr q, cacheQuote demo_manager 5 (getCacheKey demo_params) q, g')
           \<and> \<not> isValid q)"
proof -
  have down: "fst (down_gateway (tokenIn demo_params) (tokenOut demo_params)
      (JStr (params_amountIn demo_params)) 0) = Inl (TransportError ''unreachable'')"
    by (simp add: down_gateway_def)
  have miss: "getCachedQuote demo_manager 0 (getCacheKey demo_params) = None"
    by (simp add: getCachedQuote_def demo_manager_def)
  from transport_failure_absorbed[of down_gateway demo_params 0 "TransportError ''unreachable''"
      demo_manager 0 default_options 5]
  show ?thesis using down miss down_unreachable by blast
qed

text \<open>
  The claim as stated fails: with the gateway unreachable, the direct-route call raises a
  transport error, and \<^verbatim>\<open>getBestQuote\<close> returns the invalid empty quote instead of raising.
\<close>

theorem transport_failure_counterexample:
  "fst (down_gateway (tokenIn demo_params) (tokenOut demo_params)
          (JStr (params_amountIn demo_params)) 0) = Inl (TransportError ''unreachable'')
   \<and> fst (getBestQuote down_gateway demo_manager demo_params default_options 0 5 0)
       = Inr createEmptyQuote
   \<and> isValid createEmptyQuote = False"
  by (simp add: down_best down_gateway_def createEmptyQuote_def)
section \<open>The minimum output\<close>

lemma fround_of_nat_is_int:
  "fround (of_nat v) = Fin a \<Longrightarrow> \<exists>n. fround (of_int n) = Fin a"
  "fround (- of_nat v) = Fin a \<Longrightarrow> \<exists>n. fround (of_int n) = Fin a"
proof -
  show "fround (of_nat v) = Fin a \<Longrightarrow> \<exists>n. fround (of_int n) = Fin a"
    by (rule exI[of _ "int v"]) simp
  show "fround (- of_nat v) = Fin a \<Longrightarrow> \<exists>n. fround (of_int n) = Fin a"
    by (rule exI[of _ "- int v"]) simp
qed

lemma parseInt_str_Fin:
  assumes "parseInt_str s = Fin a"
  shows "\<exists>n. fround (of_int n) = Fin a"
  using assms unfolding parseInt_str_def Let_def
  by (auto split: if_splits dest: fround_of_nat_is_int)

lemma parsed_amount:
  assumes "js_parseInt v = Some (Fin a)"
  shows "rnd a = a" "\<bar>a\<bar> < pow2 1024" "\<exists>k. a = of_int k"
proof -
  from assms obtain s where "parseInt_str s = Fin a" by (auto simp: js_parseInt_def)
  then obtain n where n: "fround (of_int n) = Fin a" using parseInt_str_Fin by blast
  from fround_Fin[OF n] have a: "a = rnd (of_int n)" and b: "\<bar>rnd (of_int n)\<bar> < pow2 1024"
    by simp_all
  show "rnd a = a" unfolding a by (rule rnd_idem)
  show "\<bar>a\<bar> < pow2 1024" using b by (simp only: a)
  show "\<exists>k. a = of_int k" unfolding a by (rule rnd_of_int_integer)
qed

lemma rnd_10000 [simp]: "rnd 10000 = 10000"
  using rnd_repr[of 10000 0] by (simp add: pow2_def)

lemma big_bound: "(10000 :: rat) < pow2 1024"
  by (simp add: pow2_def)

lemma multiplier_bounds:
  assumes "0 \<le> s" "s \<le> 10000"
  shows "0 \<le> multiplier s" "multiplier s \<le> 1"
proof -
  have t0: "0 \<le> rnd (10000 - s)" using assms by (intro rnd_nonneg) simp
  have "rnd (10000 - s) \<le> rnd 10000" using assms by (intro rnd_mono) simp
  then have t1: "rnd (10000 - s) \<le> 10000" by simp
  show "0 \<le> multiplier s" unfolding multiplier_def using t0 by (intro rnd_nonneg) simp
  have "rnd (rnd (10000 - s) / 10000) \<le> rnd 1" using t1 by (intro rnd_mono) simp
  then show "multiplier s \<le> 1" by (simp add: multiplier_def)
qed

lemma multiplier_eval:
  assumes "0 \<le> s" "s \<le> 10000"
  shows "js_div (js_sub (Fin 10000) (Fin s)) (Fin 10000) = Fin (multiplier s)"
proof -
  have t0: "0 \<le> rnd (10000 - s)" using assms by (intro rnd_nonneg) simp
  have "rnd (10000 - s) \<le> rnd 10000" using assms by (intro rnd_mono) simp
  then have t1: "rnd (10000 - s) \<le> 10000" by simp
  have "\<bar>rnd (10000 - s)\<bar> < pow2 1024" using t0 t1 big_bound by linarith
  then have sub: "js_sub (Fin 10000) (Fin s) = Fin (rnd (10000 - s))"
    by (simp add: js_sub_def fround_finite)
  have "\<bar>multiplier s\<bar> < pow2 1024"
    using multiplier_bounds[OF assms] big_bound by linarith
  then have "fround (rnd (10000 - s) / 10000) = Fin (multiplier s)"
    unfolding multiplier_def by (rule fround_finite)
  then show ?thesis by (simp add: sub)
qed

lemma multiplier_antimono:
  assumes "s1 \<le> s2"
  shows "multiplier s2 \<le> multiplier s1"
proof -
  have "rnd (10000 - s2) \<le> rnd (10000 - s1)" using assms by (intro rnd_mono) simp
  then show ?thesis unfolding multiplier_def by (intro rnd_mono) (simp add: divide_right_mono)
qed

lemma multiplier_0 [simp]: "multiplier 0 = 1"
  by (simp add: multiplier_def)

lemma minimumOutputValue_eval:
  assumes "js_parseInt (amountOut q) = Some (Fin a)" "0 \<le> a" "0 \<le> s" "s \<le> 10000"
  shows "minimumOutputValue q (Fin s) = Some (Fin (of_int \<lfloor>rnd (a * multiplier s)\<rfloor>))"
proof -
  note m = multiplier_bounds[OF assms(3,4)]
  have "0 \<le> a * multiplier s" using assms(2) m(1) by simp
  then have lo: "0 \<le> rnd (a * multiplier s)" by (rule rnd_nonneg)
  have "a * multiplier s \<le> a * 1" using assms(2) m(2) by (intro mult_left_mono) simp_all
  then have "rnd (a * multiplier s) \<le> rnd a" by (intro rnd_mono) simp
  then have "rnd (a * multiplier s) \<le> a" by (simp only: parsed_amount(1)[OF assms(1)])
  then have "\<bar>rnd (a * multiplier s)\<bar> < pow2 1024"
    using lo parsed_amount(2)[OF assms(1)] by linarith
  then have "fround (a * multiplier s) = Fin (rnd (a * multiplier s))" by (rule fround_finite)
  then show ?thesis
    by (simp add: minimumOutputValue_def assms(1) multiplier_eval[OF assms(3,4)])
qed

lemma multiplier_factor:
  assumes "1 \<le> s" "s \<le> 10000"
  shows "multiplier s \<le> 9999 / 10000 * (1 + 1 / 2 ^ 53)"
proof -
  have "rnd (10000 - s) \<le> rnd 9999" using assms by (intro rnd_mono) simp
  also have "rnd 9999 = 9999" using rnd_repr[of 9999 0] by (simp add: pow2_def)
  finally have "rnd (10000 - s) / 10000 \<le> 9999 / 10000" by simp
  then have "multiplier s \<le> rnd (9999 / 10000)" unfolding multiplier_def by (rule rnd_mono)
  also have "\<dots> \<le> 9999 / 10000 * (1 + 1 / 2 ^ 53)"
  proof (rule rnd_rel_upper)
    have "ilog2 (9999 / 10000) = - 1" by (rule ilog2_unique) (simp_all add: pow2_def)
    then show "- 1022 \<le> ilog2 (9999 / 10000)" by simp
  qed simp
  finally show ?thesis .
qed

text \<open>
  Claim C4, as amended. Let the output amount of the quote parse to a number \<open>a \<ge> 0\<close>, and let
  slippages be numbers of basis points between 0 and 10000. \<^verbatim>\<open>calculateMinimumOutput\<close> returns
  the string of \<open>minimumOutputValue\<close>, the floor of the double-precision product
  \<^verbatim>\<open>a * ((10000 - slippageBps) / 10000)\<close>. With slippage 0 this value is \<open>a\<close>. It does not grow
  with the slippage: for \<open>s1 \<le> s2\<close> the value at \<open>s1\<close> is at least the value at \<open>s2\<close> (not
  strictly more). For \<open>a > 0\<close> and a slippage of at least 1 the value is strictly less than
  \<open>a\<close>.
\<close>

theorem minimumOutput_monotone:
  assumes "js_parseInt (amountOut q) = Some (Fin a)" and "0 \<le> a"
  shows "(\<forall>s. calculateMinimumOutput q s = map_option num_toString (minimumOutputValue q s))
    \<and> minimumOutputValue q (Fin 0) = Some (Fin a)
    \<and> (\<forall>s1 s2. 0 \<le> s1 \<and> s1 \<le> s2 \<and> s2 \<le> 10000 \<longrightarrow>
          (\<exists>v1 v2. minimumOutputValue q (Fin s1) = Some (Fin v1)
             \<and> minimumOutputValue q (Fin s2) = Some (Fin v2) \<and> v2 \<le> v1))
    \<and> (\<forall>s. 0 < a \<and> 1 \<le> s \<and> s \<le> 10000 \<longrightarrow>
          (\<exists>v. minimumOutputValue q (Fin s) = Some (Fin v) \<and> v < a))"
proof (intro conjI allI impI)
  fix s
  show "calculateMinimumOutput q s = map_option num_toString (minimumOutputValue q s)"
    by (simp add: calculateMinimumOutput_def)
next
  obtain k where k: "a = of_int k" using parsed_amount(3)[OF assms(1)] by blast
  have "minimumOutputValue q (Fin 0) = Some (Fin (of_int \<lfloor>rnd (a * multiplier 0)\<rfloor>))"
    by (rule minimumOutputValue_eval[OF assms]) simp_all
  then show "minimumOutputValue q (Fin 0) = Some (Fin a)"
    by (simp add: parsed_amount(1)[OF assms(1)]) (simp add: k)
next
  fix s1 s2 :: rat
  assume s: "0 \<le> s1 \<and> s1 \<le> s2 \<and> s2 \<le> 10000"
  have e1: "minimumOutputValue q (Fin s1) = Some (Fin (of_int \<lfloor>rnd (a * multiplier s1)\<rfloor>))"
    by (rule minimumOutputValue_eval[OF assms]) (use s in simp_all)
  have e2: "minimumOutputValue q (Fin s2) = Some (Fin (of_int \<lfloor>rnd (a * multiplier s2)\<rfloor>))"
    by (rule minimumOutputValue_eval[OF assms]) (use s in simp_all)
  have "multiplier s2 \<le> multiplier s1" using s by (intro multiplier_antimono) simp
  then have "a * multiplier s2 \<le> a * multiplier s1" using assms(2) by (rule mult_left_mono)
  then have "rnd (a * multiplier s2) \<le> rnd (a * multiplier s1)" by (rule rnd_mono)
  then have "\<lfloor>rnd (a * multiplier s2)\<rfloor> \<le> \<lfloor>rnd (a * multiplier s1)\<rfloor>" by (rule floor_mono)
  then have "(of_int \<lfloor>rnd (a * multiplier s2)\<rfloor> :: rat) \<le> of_int \<lfloor>rnd (a * multiplier s1)\<rfloor>"
    by (simp only: of_int_le_iff)
  then show "\<exists>v1 v2. minimumOutputValue q (Fin s1) = Some (Fin v1)
             \<and> minimumOutputValue q (Fin s2) = Some (Fin v2) \<and> v2 \<le> v1"
    using e1 e2 by blast
next
  fix s :: rat
  assume s: "0 < a \<and> 1 \<le> s \<and> s \<le> 10000"
  obtain k where k: "a = of_int k" using parsed_amount(3)[OF assms(1)] by blast
  then have "0 < k" using s by simp
  then have "1 \<le> k" by simp
  then have a1: "1 \<le> a" unfolding k by (simp only: of_int_1_le_iff)
  have e: "minimumOutputValue q (Fin s) = Some (Fin (of_int \<lfloor>rnd (a * multiplier s)\<rfloor>))"
    by (rule minimumOutputValue_eval[OF assms]) (use s in simp_all)
  have "multiplier s \<le> 9999 / 10000 * (1 + 1 / 2 ^ 53)"
    using s by (intro multiplier_factor) simp_all
  then have le: "a * multiplier s \<le> a * (9999 / 10000 * (1 + 1 / 2 ^ 53))"
    using assms(2) by (rule mult_left_mono)
  have "rnd (a * multiplier s) < a"
    by (rule rnd_less_of_factor[OF a1 le]) simp_all
  moreover have "of_int \<lfloor>rnd (a * multiplier s)\<rfloor> \<le> rnd (a * multiplier s)" by simp
  ultimately have "(of_int \<lfloor>rnd (a * multiplier s)\<rfloor> :: rat) < a" by linarith
  then show "\<exists>v. minimumOutputValue q (Fin s) = Some (Fin v) \<and> v < a" using e by blast
qed

lemma plain_amount:
  "js_parseInt (amountOut (plain_quote n ''1000'' fee)) = Some (Fin 1000)"
  "js_parseInt (amountOut (plain_quote n ''1'' fee)) = Some (Fin 1)"
  "js_parseInt (amountOut createEmptyQuote) = Some (Fin 0)"
  by (simp_all add: plain_quote_def hop_quote_def createEmptyQuote_def js_parseInt_def str_eval)

theorem minimumOutput_monotone_witness:
  "js_parseInt (amountOut (plain_quote ''q'' ''1000'' ''0'')) = Some (Fin 1000)
   \<and> (0::rat) \<le> 1000
   \<and> minimumOutputValue (plain_quote ''q'' ''1000'' ''0'') (Fin 0) = Some (Fin 1000)
   \<and> (\<exists>v1 v2. minimumOutputValue (plain_quote ''q'' ''1000'' ''0'') (Fin 50) = Some (Fin v1)
         \<and> minimumOutputValue (plain_quote ''q'' ''1000'' ''0'') (Fin 100) = Some (Fin v2)
         \<and> v2 \<le> v1 \<and> v1 < 1000)"
proof -
  note t = minimumOutput_monotone[OF plain_amount(1)[of "''q''" "''0''"], simplified]
  from t have a: "minimumOutputValue (plain_quote ''q'' ''1000'' ''0'') (Fin 0) = Some (Fin 1000)"
    by simp
  from t have "\<exists>v1 v2. minimumOutputValue (plain_quote ''q'' ''1000'' ''0'') (Fin 50) = Some (Fin v1)
         \<and> minimumOutputValue (plain_quote ''q'' ''1000'' ''0'') (Fin 100) = Some (Fin v2)
         \<and> v2 \<le> v1"
    by simp
  moreover from t have "\<exists>v. minimumOutputValue (plain_quote ''q'' ''1000'' ''0'') (Fin 50) = Some (Fin v)
         \<and> v < 1000"
    by simp
  ultimately have "\<exists>v1 v2. minimumOutputValue (plain_quote ''q'' ''1000'' ''0'') (Fin 50) = Some (Fin v1)
         \<and> minimumOutputValue (plain_quote ''q'' ''1000'' ''0'') (Fin 100) = Some (Fin v2)
         \<and> v2 \<le> v1 \<and> v1 < 1000"
    by auto
  then show ?thesis using a plain_amount(1) by simp
qed

text \<open>
  The claim as stated fails. The minimum output of an amount of 1 is 0 for a slippage of 1 and
  for a slippage of 2, so it does not fall strictly; the minimum output of an amount of 0 is
  0, which is not strictly less; and a slippage of \<open>2^-41\<close> basis points, which is positive,
  leaves the amount 1000 unchanged, because \<^verbatim>\<open>10000 - slippageBps\<close> rounds to 10000.
\<close>

lemma unit_amount_floor:
  assumes "js_parseInt (amountOut q) = Some (Fin 1)" "1 \<le> s" "s \<le> 10000"
  shows "minimumOutputValue q (Fin s) = Some (Fin 0)"
proof -
  have e: "minimumOutputValue q (Fin s) = Some (Fin (of_int \<lfloor>rnd (1 * multiplier s)\<rfloor>))"
    by (rule minimumOutputValue_eval[OF assms(1)]) (use assms in simp_all)
  have r: "rnd (multiplier s) = multiplier s" unfolding multiplier_def by (rule rnd_idem)
  have "0 \<le> multiplier s" using assms by (intro multiplier_bounds) simp_all
  moreover have "multiplier s \<le> 9999 / 10000 * (1 + 1 / 2 ^ 53)"
    using assms by (intro multiplier_factor)
  then have "multiplier s < 1" by simp
  ultimately have "\<lfloor>multiplier s\<rfloor> = 0" by (intro floor_unique) simp_all
  then show ?thesis using e by (simp add: r)
qed

lemma tiny_slippage: "fround (10000 - 1 / 2 ^ 41) = Fin 10000"
  using fround_eval[of 13 "10000 - 1 / 2 ^ 41" 5497558138880000] by (simp add: pow2_def)

theorem minimumOutput_strict_counterexample:
  "minimumOutputValue (plain_quote ''q'' ''1'' ''0'') (Fin 1) = Some (Fin 0)
   \<and> minimumOutputValue (plain_quote ''q'' ''1'' ''0'') (Fin 2) = Some (Fin 0)
   \<and> js_parseInt (amountOut createEmptyQuote) = Some (Fin 0)
   \<and> minimumOutputValue createEmptyQuote (Fin 1) = Some (Fin 0)
   \<and> (0::rat) < 1 / 2 ^ 41
   \<and> minimumOutputValue (plain_quote ''q'' ''1000'' ''0'') (Fin (1 / 2 ^ 41)) = Some (Fin 1000)"
proof -
  have z: "minimumOutputValue createEmptyQuote (Fin 1)
      = Some (Fin (of_int \<lfloor>rnd (0 * multiplier 1)\<rfloor>))"
    by (rule minimumOutputValue_eval[OF plain_amount(3)]) simp_all
  have t: "minimumOutputValue (plain_quote ''q'' ''1000'' ''0'') (Fin (1 / 2 ^ 41)) = Some (Fin 1000)"
    using tiny_slippage by (simp add: minimumOutputValue_def plain_amount js_sub_def)
  show ?thesis
    using unit_amount_floor[OF plain_amount(2), of 1 "''q''" "''0''"]
      unit_amount_floor[OF plain_amount(2), of 2 "''q''" "''0''"] z t plain_amount(3)
    by simp
qed

section \<open>The bin price\<close>

lemma fround_2_64: "fround 18446744073709551616 = Fin 18446744073709551616"
  using fround_repr[of 1 64] by (simp add: pow2_def)

lemma two_pow_64: "Math_pow (Fin 2) 64 = Fin 18446744073709551616"
  by (simp add: Math_pow_def power_int_def fround_2_64)

text \<open>
  Claim C5, as amended. \<^verbatim>\<open>calculateBinPrice\<close> does not check the bin step: for every bin
  index and every bin step, also zero and negative ones, it raises nothing and returns the
  string of \<^verbatim>\<open>Math.pow(1 + binStep / 10000, binId) * Math.pow(2, 64)\<close>.
\<close>

theorem calculateBinPrice_never_raises:
  "calculateBinPrice binId binStep
     = Inr (num_toString
              (js_mul (Math_pow (js_add (Fin 1) (js_div binStep (Fin 10000))) binId)
                 (Fin 18446744073709551616)))
   \<and> (\<forall>e. calculateBinPrice binId binStep \<noteq> Inl e)"
  by (simp add: calculateBinPrice_def Let_def two_pow_64)

text \<open>A bin step of \<open>-5000\<close> gives the base \<open>1/2\<close>; bin 64 then has the price \<open>2^-64\<close>, printed
  after scaling as \<^verbatim>\<open>"1"\<close>.\<close>

lemma half_pow_64: "Math_pow (Fin (1 / 2)) 64 = Fin (1 / 18446744073709551616)"
  using fround_repr[of 1 "- 64"] by (simp add: Math_pow_def pow2_def power_int_def power_divide)

lemma fround_half: "fround (1 / 2) = Fin (1 / 2)" "fround (- (1 / 2)) = Fin (- (1 / 2))"
  using fround_repr[of 1 "- 1"] fround_repr[of "- 1" "- 1"] by (simp_all add: pow2_def)

theorem calculateBinPrice_never_raises_witness:
  "calculateBinPrice 64 (Fin (- 5000)) = Inr ''1''"
  using calculateBinPrice_never_raises[of 64 "Fin (- 5000)"]
  by (simp add: fround_half half_pow_64 str_eval)

text \<open>
  The claim as stated fails: for the bin step 0 (and bin 0) a price is returned, the number
  \<open>2^64\<close> converted to a string, and for the bin step \<open>-5000\<close> (and bin 64) the price
  \<^verbatim>\<open>"1"\<close>; no error is raised.
\<close>

theorem calculateBinPrice_counterexample:
  "calculateBinPrice 0 (Fin 0) = Inr (num_toString (Fin 18446744073709551616))
   \<and> calculateBinPrice 64 (Fin (- 5000)) = Inr ''1''"
proof
  show "calculateBinPrice 0 (Fin 0) = Inr (num_toString (Fin 18446744073709551616))"
    by (simp add: calculateBinPrice_def Let_def two_pow_64 fround_2_64 Math_pow_def
        del: num_toString.simps)
  show "calculateBinPrice 64 (Fin (- 5000)) = Inr ''1''"
    by (simp add: calculateBinPrice_def Let_def two_pow_64 fround_half half_pow_64 str_eval)
qed

section \<open>Bin prices beyond the number range\<close>

text \<open>
  The price of a bin is a power of the base \<^verbatim>\<open>1 + binStep / 10000\<close> and grows geometrically
  with the bin index, while the largest number is below \<open>2^1024\<close>.
\<close>

lemma tenth_bounds: "\<exists>r. fround (1 / 10) = Fin r \<and> 1 / 16 \<le> r \<and> r \<le> 1 / 8"
proof -
  have lo: "rnd (1 / 16) = 1 / 16" using rnd_repr[of 1 "- 4"] by (simp add: pow2_def)
  have hi: "rnd (1 / 8) = 1 / 8" using rnd_repr[of 1 "- 3"] by (simp add: pow2_def)
  have a: "1 / 16 \<le> rnd (1 / 10)" using rnd_mono[of "1 / 16" "1 / 10"] by (simp add: lo)
  have b: "rnd (1 / 10) \<le> 1 / 8" using rnd_mono[of "1 / 10" "1 / 8"] by (simp add: hi)
  have "\<bar>rnd (1 / 10)\<bar> < pow2 1024" using a b by (simp add: pow2_def)
  then show ?thesis using a b fround_finite by blast
qed

lemma base_bounds:
  "\<exists>b. js_add (Fin 1) (js_div (Fin 1000) (Fin 10000)) = Fin b \<and> 17 / 16 \<le> b"
proof -
  obtain r where r: "fround (1 / 10) = Fin r" "1 / 16 \<le> r" "r \<le> 1 / 8"
    using tenth_bounds by blast
  have lo: "rnd (17 / 16) = 17 / 16" using rnd_repr[of 17 "- 4"] by (simp add: pow2_def)
  have hi: "rnd (9 / 8) = 9 / 8" using rnd_repr[of 9 "- 3"] by (simp add: pow2_def)
  have a: "17 / 16 \<le> rnd (1 + r)" using rnd_mono[of "17 / 16" "1 + r"] r(2) by (simp add: lo)
  have b: "rnd (1 + r) \<le> 9 / 8" using rnd_mono[of "1 + r" "9 / 8"] r(3) by (simp add: hi)
  have "\<bar>rnd (1 + r)\<bar> < pow2 1024" using a b by (simp add: pow2_def)
  then have "fround (1 + r) = Fin (rnd (1 + r))" by (rule fround_finite)
  then show ?thesis using a by (simp add: r(1))
qed

lemma power_overflows:
  assumes "17 / 16 \<le> (b::rat)"
  shows "pow2 1024 \<le> b ^ 100000"
proof -
  have "(2::rat) \<le> (17 / 16) ^ 12" by (simp add: power_divide)
  then have "(2::rat) ^ 1024 \<le> ((17 / 16) ^ 12) ^ 1024" by (rule power_mono) simp
  also have "\<dots> = (17 / 16) ^ 12288" by (simp only: power_mult[symmetric]) simp
  also have "\<dots> \<le> (17 / 16) ^ 100000" by (rule power_increasing) simp_all
  also have "\<dots> \<le> b ^ 100000" using assms by (rule power_mono) simp
  finally show ?thesis by (simp add: pow2_def)
qed

text \<open>
  With the bin step 1000 the base is about \<open>1.1\<close>, and the price of bin 100000 is far beyond
  the largest number: the power is \<^verbatim>\<open>Infinity\<close>, and so is the price string.
\<close>

lemma bin_price_overflow: "calculateBinPrice 100000 (Fin 1000) = Inr ''Infinity''"
proof -
  obtain b where b: "js_add (Fin 1) (js_div (Fin 1000) (Fin 10000)) = Fin b" "17 / 16 \<le> b"
    using base_bounds by blast
  have top: "rnd (pow2 1024) = pow2 1024" using rnd_repr[of 1 1024] by simp
  have "pow2 1024 \<le> rnd (b ^ 100000)"
    using rnd_mono[OF power_overflows[OF b(2)]] by (simp only: top)
  then have "fround (b ^ 100000) = PInf" by (simp add: fround_def Let_def)
  moreover have "b \<noteq> 0" using b(2) by auto
  ultimately have "Math_pow (Fin b) 100000 = PInf"
    by (simp add: Math_pow_def power_int_def)
  then show ?thesis
    by (simp add: calculateBinPrice_def Let_def b(1) two_pow_64 inf_of_sign_def
        del: js_add.simps js_div.simps)
qed
section \<open>The quote cache\<close>

text \<open>
  Claim C7. For the cache key of a request \<open>(tokenIn, tokenOut, amountIn)\<close>: a lookup returns a
  quote exactly when the cache holds an entry for the key whose age \<open>now - timestamp\<close> is below
  the time to live of 10000 ms, and then it is the stored quote; once the age has reached
  10000 ms the lookup answers as if the entry were absent; and a store replaces whatever the
  key held by the new quote stamped with the time of the store, leaving other keys alone.
\<close>

theorem cache_get_put:
  "CACHE_TTL = 10000
   \<and> (getCachedQuote m now (getCacheKey p) = Some q
        \<longleftrightarrow> (\<exists>ts. quoteCache m (getCacheKey p) = Some (q, ts) \<and> now - ts < 10000))
   \<and> (getCachedQuote m now (getCacheKey p) = None
        \<longleftrightarrow> (\<forall>q' ts. quoteCache m (getCacheKey p) = Some (q', ts) \<longrightarrow> 10000 \<le> now - ts))
   \<and> quoteCache (cacheQuote m t (getCacheKey p) q) = (quoteCache m)(getCacheKey p \<mapsto> (q, t))
   \<and> getCachedQuote (cacheQuote m t (getCacheKey p) q) now (getCacheKey p)
        = (if now - t < 10000 then Some q else None)"
  by (auto simp: getCachedQuote_def cacheQuote_def CACHE_TTL_def split: option.splits)

theorem cache_get_put_witness:
  "quoteCache (cacheQuote \<lparr>packageId = ''0x2'', factoryId = ''0x3'', quoteCache = Map.empty\<rparr> 1000
       (getCacheKey \<lparr>tokenIn = ''A'', tokenOut = ''B'', params_amountIn = ''100''\<rparr>)
       createEmptyQuote)
     (getCacheKey \<lparr>tokenIn = ''A'', tokenOut = ''B'', params_amountIn = ''100''\<rparr>)
     = Some (createEmptyQuote, 1000)
   \<and> (10999::int) - 1000 < 10000
   \<and> getCachedQuote (cacheQuote \<lparr>packageId = ''0x2'', factoryId = ''0x3'', quoteCache = Map.empty\<rparr> 1000
       (getCacheKey \<lparr>tokenIn = ''A'', tokenOut = ''B'', params_amountIn = ''100''\<rparr>)
       createEmptyQuote) 10999
     (getCacheKey \<lparr>tokenIn = ''A'', tokenOut = ''B'', params_amountIn = ''100''\<rparr>)
     = Some createEmptyQuote
   \<and> (10000::int) \<le> 11000 - 1000
   \<and> getCachedQuote (cacheQuote \<lparr>packageId = ''0x2'', factoryId = ''0x3'', quoteCache = Map.empty\<rparr> 1000
       (getCacheKey \<lparr>tokenIn = ''A'', tokenOut = ''B'', params_amountIn = ''100''\<rparr>)
       createEmptyQuote) 11000
     (getCacheKey \<lparr>tokenIn = ''A'', tokenOut = ''B'', params_amountIn = ''100''\<rparr>)
     = None"
  using cache_get_put[of "\<lparr>packageId = ''0x2'', factoryId = ''0x3'', quoteCache = Map.empty\<rparr>"
      10999 "\<lparr>tokenIn = ''A'', tokenOut = ''B'', params_amountIn = ''100''\<rparr>" createEmptyQuote 1000]
    cache_get_put[of "\<lparr>packageId = ''0x2'', factoryId = ''0x3'', quoteCache = Map.empty\<rparr>"
      11000 "\<lparr>tokenIn = ''A'', tokenOut = ''B'', params_amountIn = ''100''\<rparr>" createEmptyQuote 1000]
  by simp

section \<open>Parsing the gateway response\<close>

lemma position_taken:
  assumes "truthy rv"
  shows "position rv i d = Some (taken rv i d)"
  using assms by (cases rv) (simp_all add: position_def opt_index_def js_or_def taken_def)

lemma parse_body_nullish:
  assumes "return_values r = None"
  shows "parse_body r tIn tOut aIn = None"
  using assms by (simp add: parse_body_def)

lemma parse_body_absent:
  assumes "return_values r = Some rv" "\<not> truthy rv"
  shows "parse_body r tIn tOut aIn = Some createEmptyQuote"
  using assms by (simp add: parse_body_def)

lemma parse_body_raises:
  assumes "return_values r = Some rv" "truthy rv"
    and "ToString (taken rv 1 ''0'') = None \<or> ToString (taken rv 0 ''0'') = None"
  shows "parse_body r tIn tOut aIn = None"
  using assms(3) unfolding parse_body_def assms(1) option.case if_P[OF assms(2)]
    position_taken[OF assms(2)]
  by (auto simp: js_parseInt_def)

lemma parse_body_present:
  assumes "return_values r = Some rv" "truthy rv"
    and "ToString (taken rv 1 ''0'') = Some p" "ToString (taken rv 0 ''0'') = Some a"
  shows "parse_body r tIn tOut aIn =
     Some \<lparr> amountOut = taken rv 0 ''0'', amountIn = aIn, priceImpact = p,
            feeAmount = taken rv 2 ''0'', gasEstimate = taken rv 3 ''150000'', poolId = [],
            route = \<lparr> hops = [\<lparr> hop_poolId = [], hop_tokenIn = tIn, hop_tokenOut = tOut,
                                  hop_binStep = Fin 25, expectedAmountIn = aIn,
                                  expectedAmountOut = taken rv 0 ''0'',
                                  expectedFee = taken rv 2 ''0'', hop_priceImpact = p \<rparr>],
                      totalFee = taken rv 2 ''0'', estimatedGas = taken rv 3 ''150000'',
                      route_priceImpact = p, routeType = Direct \<rparr>,
            isValid = js_gt (parseInt_str a) (Fin 0), slippageTolerance = Fin 50 \<rparr>"
  using assms(3,4)
  unfolding parse_body_def assms(1) option.case if_P[OF assms(2)] position_taken[OF assms(2)]
  by (simp add: js_parseInt_def)

text \<open>
  Claim C8, as amended. \<^verbatim>\<open>parseContractQuoteResult\<close> never raises. When the response is
  nullish, when it has no truthy \<^verbatim>\<open>results[0].returnValues\<close>, or when reading the values
  raises (the value taken for position 1 or for position 0 cannot be converted to a string),
  the outcome is the canonical empty quote (invalid, every amount \<^verbatim>\<open>"0"\<close>). In every other
  case each of the positions 0 to 3 that is absent or falsy takes its default (\<^verbatim>\<open>"0"\<close>, for
  the gas estimate \<^verbatim>\<open>"150000"\<close>), while any other value is copied into the quote as it is,
  numeral or not; the price impact is the string of the value taken for position 1; the quote
  echoes the requested input amount, has the single hop of the request and the tolerance 50,
  and is valid exactly when \<^verbatim>\<open>parseInt(amountOut) > 0\<close>.
\<close>

theorem parseContractQuoteResult_total:
  "\<exists>q. parseContractQuoteResult r tIn tOut aIn = Inr q
     \<and> (return_values r = None \<longrightarrow> q = createEmptyQuote)
     \<and> (\<forall>rv. return_values r = Some rv \<longrightarrow>
           (if \<not> truthy rv \<or> ToString (taken rv 1 ''0'') = None
                 \<or> ToString (taken rv 0 ''0'') = None
            then q = createEmptyQuote
            else amountOut q = taken rv 0 ''0''
               \<and> ToString (taken rv 1 ''0'') = Some (priceImpact q)
               \<and> feeAmount q = taken rv 2 ''0''
               \<and> gasEstimate q = taken rv 3 ''150000''
               \<and> amountIn q = aIn
               \<and> (isValid q \<longleftrightarrow> (\<exists>n. js_parseInt (amountOut q) = Some n \<and> js_gt n (Fin 0)))
               \<and> map hop_tokenIn (hops (route q)) = [tIn]
               \<and> map hop_tokenOut (hops (route q)) = [tOut]
               \<and> routeType (route q) = Direct
               \<and> slippageTolerance q = Fin 50))"
proof (cases "return_values r")
  case None
  then show ?thesis
    by (simp add: parseContractQuoteResult_def parse_body_nullish)
next
  case (Some rv)
  show ?thesis
  proof (cases "truthy rv")
    case False
    then show ?thesis
      using Some by (simp add: parseContractQuoteResult_def parse_body_absent)
  next
    case True
    show ?thesis
    proof (cases "ToString (taken rv 1 ''0'') = None \<or> ToString (taken rv 0 ''0'') = None")
      case raises: True
      then show ?thesis
        using Some parse_body_raises[OF Some True raises, of tIn tOut aIn]
        by (simp add: parseContractQuoteResult_def)
    next
      case False
      then obtain p a where pa: "ToString (taken rv 1 ''0'') = Some p"
        "ToString (taken rv 0 ''0'') = Some a" by auto
      show ?thesis
        using Some True pa parse_body_present[OF Some True pa, of tIn tOut aIn]
        by (simp add: parseContractQuoteResult_def js_parseInt_def)
    qed
  qed
qed

text \<open>
  The amended statement at four responses: one whose positions 0 and 2 hold \<^verbatim>\<open>"90"\<close> and
  \<^verbatim>\<open>"1"\<close>; the absent response \<^verbatim>\<open>null\<close>; the response \<^verbatim>\<open>{}\<close> without results; and a response
  whose position 1 holds an object that cannot be converted to a string.
\<close>

theorem parseContractQuoteResult_total_witness:
  "return_values (quote_response ''90'' ''1'')
     = Some (JArr [JArr [JStr ''90''], JArr [JStr ''0''], JArr [JStr ''1''],
                   JArr [JStr ''150000'']])
   \<and> truthy (JArr [JArr [JStr ''90''], JArr [JStr ''0''], JArr [JStr ''1''],
                     JArr [JStr ''150000'']])
   \<and> parseContractQuoteResult (quote_response ''90'' ''1'') ''A'' ''X'' (JStr ''100'')
       = Inr (hop_quote ''A'' ''X'' ''100'' ''90'' ''1'')
   \<and> return_values JNull = None
   \<and> parseContractQuoteResult JNull ''A'' ''X'' (JStr ''100'') = Inr createEmptyQuote
   \<and> return_values (JObj []) = Some JUndefined
   \<and> parseContractQuoteResult (JObj []) ''A'' ''X'' (JStr ''100'') = Inr createEmptyQuote
   \<and> return_values
        (JObj [(''results'', JArr [JObj [(''returnValues'',
            JArr [JArr [JStr ''90''], JArr [JObj [(''toString'', JStr ''x'')]]])]])])
       = Some (JArr [JArr [JStr ''90''], JArr [JObj [(''toString'', JStr ''x'')]]])
   \<and> ToString (taken (JArr [JArr [JStr ''90''], JArr [JObj [(''toString'', JStr ''x'')]]])
                  1 ''0'') = None
   \<and> parseContractQuoteResult
        (JObj [(''results'', JArr [JObj [(''returnValues'',
            JArr [JArr [JStr ''90''], JArr [JObj [(''toString'', JStr ''x'')]]])]])])
        ''A'' ''X'' (JStr ''100'') = Inr createEmptyQuote"
  using parseContractQuoteResult_total[of JNull "''A''" "''X''" "JStr ''100''"]
    parseContractQuoteResult_total[of "quote_response ''90'' ''1''" "''A''" "''X''" "JStr ''100''"]
  by (simp add: parse_eval str_eval hop_quote_def taken_def)

text \<open>
  The claim as stated fails: position 0 holding the malformed amount \<^verbatim>\<open>"abc"\<close> does not
  default to \<^verbatim>\<open>"0"\<close>; it is copied into the (invalid) quote together with the default gas
  estimate and the requested input amount.
\<close>

theorem malformed_position_counterexample:
  "parseContractQuoteResult
     (JObj [(''results'', JArr [JObj [(''returnValues'', JArr [JArr [JStr ''abc'']])]])])
     ''A'' ''B'' (JStr ''100'')
   = Inr \<lparr> amountOut = JStr ''abc'', amountIn = JStr ''100'', priceImpact = ''0'',
           feeAmount = JStr ''0'', gasEstimate = JStr ''150000'', poolId = '''',
           route = \<lparr> hops = [\<lparr> hop_poolId = '''', hop_tokenIn = ''A'', hop_tokenOut = ''B'',
                                 hop_binStep = Fin 25, expectedAmountIn = JStr ''100'',
                                 expectedAmountOut = JStr ''abc'', expectedFee = JStr ''0'',
                                 hop_priceImpact = ''0'' \<rparr>],
                     totalFee = JStr ''0'', estimatedGas = JStr ''150000'',
                     route_priceImpact = ''0'', routeType = Direct \<rparr>,
           isValid = False, slippageTolerance = Fin 50 \<rparr>"
  by (simp add: parse_eval str_eval)

section \<open>Routes through an intermediate token\<close>

lemma parse_body_valid_hops:
  assumes "parse_body r a b x = Some q" "isValid q"
  shows "\<exists>h. hops (route q) = [h] \<and> hop_tokenIn h = a \<and> hop_tokenOut h = b"
  using assms
  by (auto simp: parse_body_def createEmptyQuote_def bind_eq_Some_conv
      split: option.splits if_splits)

lemma getContractQuote_valid_hops:
  assumes "getContractQuote gw a b x g = (Inr q, g')" "isValid q"
  shows "\<exists>h. hops (route q) = [h] \<and> hop_tokenIn h = a \<and> hop_tokenOut h = b"
proof -
  from assms(1) obtain r where "parseContractQuoteResult r a b x = Inr q"
    by (auto simp: getContractQuote_def split: prod.splits sum.splits)
  then have "parse_body r a b x = Some q \<or> q = createEmptyQuote"
    by (auto simp: parseContractQuoteResult_def split: option.splits)
  then show ?thesis
    using assms(2) parse_body_valid_hops[of r a b x q] by (auto simp: createEmptyQuote_def)
qed

lemma invalid_or_zero_False: "invalid_or_zero q = Some False \<Longrightarrow> isValid q"
  by (auto simp: invalid_or_zero_def split: if_splits)

lemma combineHops_route:
  assumes "combineHops params f s i = Some q"
  shows "hops (route q) = hops (route f) @ hops (route s)" "routeType (route q) = MultiHop"
  using assms by (auto simp: combineHops_def bind_eq_Some_conv Let_def)

lemma two_hops_invariant:
  assumes "hops (route q) = [h1, h2]" "hop_tokenIn h1 = tokenIn params"
    "hop_tokenOut h1 = hop_tokenIn h2" "hop_tokenOut h2 = tokenOut params"
  shows "route_invariant params q"
  using assms by (auto simp: route_invariant_def chained_def less_Suc_eq)

text \<open>One iteration of the loop adds nothing, or one quote composed of two valid hops.\<close>

lemma singleHopLoop_invariant:
  assumes "singleHopLoop gw params tokens routes g = (rs, g')"
    and "\<forall>q \<in> set routes. route_invariant params q \<and> length (hops (route q)) = 2
            \<and> routeType (route q) = MultiHop"
  shows "\<forall>q \<in> set rs. route_invariant params q \<and> length (hops (route q)) = 2
            \<and> routeType (route q) = MultiHop"
  using assms
proof (induction tokens arbitrary: routes g)
  case Nil
  then show ?case by simp
next
  case (Cons t ts)
  let ?P = "\<lambda>q. route_invariant params q \<and> length (hops (route q)) = 2
            \<and> routeType (route q) = MultiHop"
  have skip: "\<forall>q \<in> set rs. ?P q" if "singleHopLoop gw params ts routes g1 = (rs, g')" for g1
    using Cons.IH[OF that Cons.prems(2)] .
  show ?case
  proof (cases "t = tokenIn params \<or> t = tokenOut params")
    case True
    then show ?thesis using Cons.prems(1) skip by simp
  next
    case False
    obtain r1 g1 where c1: "getContractQuote gw (tokenIn params) t (JStr (params_amountIn params)) g = (r1, g1)"
      by (cases "getContractQuote gw (tokenIn params) t (JStr (params_amountIn params)) g")
    show ?thesis
    proof (cases r1)
      case (Inl e)
      then show ?thesis using Cons.prems(1) False c1 skip by simp
    next
      case (Inr first)
      show ?thesis
      proof (cases "invalid_or_zero first = Some False")
        case notF: False
        then have "singleHopLoop gw params ts routes g1 = (rs, g')"
          using Cons.prems(1) False c1 Inr
          by (auto split: option.splits bool.splits)
        then show ?thesis by (rule skip)
      next
        case okF: True
        obtain r2 g2 where c2: "getContractQuote gw t (tokenOut params) (amountOut first) g1 = (r2, g2)"
          by (cases "getContractQuote gw t (tokenOut params) (amountOut first) g1")
        show ?thesis
        proof (cases r2)
          case (Inl e)
          then show ?thesis using Cons.prems(1) False c1 \<open>r1 = Inr first\<close> okF c2 skip by simp
        next
          case (Inr second)
          show ?thesis
          proof (cases "invalid_or_zero second = Some False")
            case notS: False
            then have "singleHopLoop gw params ts routes g2 = (rs, g')"
              using Cons.prems(1) False c1 \<open>r1 = Inr first\<close> okF c2 Inr
              by (auto split: option.splits bool.splits)
            then show ?thesis by (rule skip)
          next
            case okS: True
            show ?thesis
            proof (cases "combineHops params first second t")
              case None
              then show ?thesis
                using Cons.prems(1) False c1 \<open>r1 = Inr first\<close> okF c2 Inr okS skip by simp
            next
              case (Some c)
              have run: "singleHopLoop gw params ts (routes @ [c]) g2 = (rs, g')"
                using Cons.prems(1) False c1 \<open>r1 = Inr first\<close> okF c2 Inr okS Some by simp
              obtain h1 where h1: "hops (route first) = [h1]" "hop_tokenIn h1 = tokenIn params"
                  "hop_tokenOut h1 = t"
                using getContractQuote_valid_hops[OF c1[unfolded \<open>r1 = Inr first\<close>]
                    invalid_or_zero_False[OF okF]] by blast
              obtain h2 where h2: "hops (route second) = [h2]" "hop_tokenIn h2 = t"
                  "hop_tokenOut h2 = tokenOut params"
                using getContractQuote_valid_hops[OF c2[unfolded Inr]
                    invalid_or_zero_False[OF okS]] by blast
              have hc: "hops (route c) = [h1, h2]" "routeType (route c) = MultiHop"
                using combineHops_route[OF Some] h1(1) h2(1) by simp_all
              have "?P c"
                using two_hops_invariant[OF hc(1) h1(2)] h1(3) h2(2,3) hc by simp
              then have "\<forall>q \<in> set (routes @ [c]). ?P q" using Cons.prems(2) by simp
              then show ?thesis by (rule Cons.IH[OF run])
            qed
          qed
        qed
      qed
    qed
  qed
qed

lemma set_insert_route: "set (insert_route x ys) = insert x (set ys)"
  by (induction ys) auto

lemma set_foldr_insert_route: "set (foldr insert_route xs []) = set xs"
  by (induction xs) (simp_all add: set_insert_route)

lemma those_length: "those xs = Some ys \<Longrightarrow> length ys = length xs"
  by (induction xs arbitrary: ys) (auto split: option.splits)

lemma sort_routes_set:
  assumes "sort_routes rs = Some ss"
  shows "set ss = set rs"
proof (cases "length rs < 2")
  case True
  then show ?thesis using assms by (simp add: sort_routes_def)
next
  case False
  then obtain ks where ks: "those (map (\<lambda>q. js_parseInt (amountOut q)) rs) = Some ks"
    and ss: "ss = map fst (foldr insert_route (zip rs ks) [])"
    using assms by (auto simp: sort_routes_def split: option.splits)
  have "length ks = length rs" using those_length[OF ks] by simp
  then have "map fst (zip rs ks) = rs" by simp
  then show ?thesis
    unfolding ss set_map set_foldr_insert_route by (metis set_map)
qed

text \<open>
  Claim C9. Every quote that \<^verbatim>\<open>getSingleHopQuotes\<close> returns for a request has a route of two
  hops, of type multi-hop, that satisfies the composition invariant: the first hop starts from
  the request's input token, the last hop ends in its output token, and each hop ends in the
  token the next one starts from.
\<close>

theorem route_composition:
  assumes "getSingleHopQuotes gw m params g = (Inr routes, g')" and "q \<in> set routes"
  shows "route_invariant params q \<and> length (hops (route q)) = 2 \<and> routeType (route q) = MultiHop"
proof -
  obtain rs where loop: "singleHopLoop gw params (getCommonIntermediateTokens m) [] g = (rs, g')"
    and srt: "sort_routes rs = Some routes"
    using assms(1)
    by (auto simp: getSingleHopQuotes_def split: prod.splits option.splits)
  have "q \<in> set rs" using assms(2) sort_routes_set[OF srt] by simp
  then show ?thesis using singleHopLoop_invariant[OF loop] by simp
qed

text \<open>In the demo world the enumerator returns the one route \<open>A \<rightarrow> USDC \<rightarrow> B\<close>.\<close>

theorem route_composition_witness:
  "getSingleHopQuotes demo_gateway demo_manager demo_params 0 = (Inr [demo_combined], 2)
   \<and> demo_combined \<in> set [demo_combined]
   \<and> route_invariant demo_params demo_combined
   \<and> length (hops (route demo_combined)) = 2
   \<and> routeType (route demo_combined) = MultiHop"
  using route_composition[OF demo_single_hops[of 0, simplified], of demo_combined]
    demo_single_hops[of 0]
  by simp

section \<open>Caching of computed quotes\<close>

text \<open>
  Claim C10. When \<^verbatim>\<open>getBestQuote\<close> returns a quote, valid or not, the cache afterwards holds
  that quote under the request's key, stamped with the time of the store if the call had
  missed the cache; and every later call for the same request made while the entry is younger
  than 10000 ms returns that same quote, leaves the manager as it is and does not touch the
  gateway, whichever gateway, options and world it is given.
\<close>

theorem getBestQuote_caches_result:
  assumes "getBestQuote gw m params options t1 t2 g = (Inr q, m', g')"
  shows "\<exists>ts. quoteCache m' (getCacheKey params) = Some (q, ts)
          \<and> (getCachedQuote m t1 (getCacheKey params) = None \<longrightarrow> ts = t2)
          \<and> (\<forall>gw2 options2 t3 t4 g2. t3 - ts < 10000 \<longrightarrow>
                getBestQuote gw2 m' params options2 t3 t4 (g2::'h) = (Inr q, m', g2))"
proof (cases "getCachedQuote m t1 (getCacheKey params)")
  case None
  then have m': "m' = cacheQuote m t2 (getCacheKey params) q"
    using assms
    by (auto simp: getBestQuote_def Let_def split: prod.splits sum.splits option.splits)
  have "getCachedQuote m' t3 (getCacheKey params) = Some q" if "t3 - t2 < 10000" for t3
    using that by (simp add: m' getCachedQuote_def cacheQuote_def CACHE_TTL_def)
  then show ?thesis
    using None by (intro exI[of _ t2]) (simp add: getBestQuote_def m' cacheQuote_def)
next
  case (Some c)
  then have eq: "q = c" "m' = m" using assms by (simp_all add: getBestQuote_def)
  from Some obtain ts where ts: "quoteCache m (getCacheKey params) = Some (c, ts)"
    by (auto simp: getCachedQuote_def split: option.splits prod.splits if_splits)
  have "getCachedQuote m t3 (getCacheKey params) = Some c" if "t3 - ts < 10000" for t3
    using that ts by (simp add: getCachedQuote_def CACHE_TTL_def)
  then show ?thesis
    using Some ts by (intro exI[of _ ts]) (simp add: getBestQuote_def eq)
qed

text \<open>
  With the gateway unreachable the first call stores the invalid empty quote at time 5; a call
  at time 10004, given the demo gateway that would find a route, returns the invalid quote again
  and leaves the world untouched.
\<close>

theorem getBestQuote_caches_result_witness:
  "getBestQuote down_gateway demo_manager demo_params default_options 0 5 0
     = (Inr createEmptyQuote, cacheQuote demo_manager 5 ''A-B-100'' createEmptyQuote, 2)
   \<and> \<not> isValid createEmptyQuote
   \<and> (10004::int) - 5 < 10000
   \<and> getBestQuote demo_gateway (cacheQuote demo_manager 5 ''A-B-100'' createEmptyQuote)
        demo_params default_options 10004 10006 7
     = (Inr createEmptyQuote, cacheQuote demo_manager 5 ''A-B-100'' createEmptyQuote, 7)"
proof -
  have miss: "getCachedQuote demo_manager 0 (getCacheKey demo_params) = None"
    by (simp add: getCachedQuote_def demo_manager_def)
  have "\<exists>ts. quoteCache (cacheQuote demo_manager 5 ''A-B-100'' createEmptyQuote)
            (getCacheKey demo_params) = Some (createEmptyQuote, ts)
          \<and> (getCachedQuote demo_manager 0 (getCacheKey demo_params) = None \<longrightarrow> ts = 5)
          \<and> (\<forall>gw2 options2 t3 t4 g2. t3 - ts < 10000 \<longrightarrow>
                getBestQuote gw2 (cacheQuote demo_manager 5 ''A-B-100'' createEmptyQuote)
                  demo_params options2 t3 t4 (g2::nat)
                = (Inr createEmptyQuote, cacheQuote demo_manager 5 ''A-B-100'' createEmptyQuote,
                   g2))"
    by (rule getBestQuote_caches_result[OF down_best[of 0 5]])
  then have "getBestQuote demo_gateway (cacheQuote demo_manager 5 ''A-B-100'' createEmptyQuote)
        demo_params default_options 10004 10006 7
     = (Inr createEmptyQuote, cacheQuote demo_manager 5 ''A-B-100'' createEmptyQuote, 7)"
  proof (elim exE conjE)
    fix ts
    assume b: "getCachedQuote demo_manager 0 (getCacheKey demo_params) = None \<longrightarrow> ts = 5"
      and c: "\<forall>gw2 options2 t3 t4 g2. t3 - ts < 10000 \<longrightarrow>
                getBestQuote gw2 (cacheQuote demo_manager 5 ''A-B-100'' createEmptyQuote)
                  demo_params options2 t3 t4 (g2::nat)
                = (Inr createEmptyQuote, cacheQuote demo_manager 5 ''A-B-100'' createEmptyQuote,
                   g2)"
    have ts: "ts = 5" using b miss by (rule mp)
    have h: "(10004::int) - ts < 10000" by (simp add: ts)
    show ?thesis by (rule c[rule_format, OF h])
  qed
  moreover have "\<not> isValid createEmptyQuote" by (simp add: createEmptyQuote_def)
  ultimately show ?thesis using down_best[of 0 5] by simp
qed

end
